theory Spec2Isabelle
  imports Complex_Main "HOL-Library.AList" "HOL-Library.Sublist"
begin

section \<open>Exceptions\<close>

text \<open>
  The Python exceptions the modelled functions raise. A function that can raise returns
  a sum whose left injection carries the exception; a function that mutates its object
  and can raise returns the exception (if any) together with the state it leaves.
\<close>

datatype error =
    KeyError
  | ValueError string
  | HistoryEmptyException
  | AttributeError string
  | ReferenceError
  | IOError
  | IndexError
  | OtherError string

section \<open>History (ranger/container/history.py)\<close>

text \<open>
  \<^verbatim>\<open>History.__init__\<close> makes two deques with the same \<^verbatim>\<open>maxlen\<close>. A deque is
  modelled as a list whose last element is the right end; \<^verbatim>\<open>append\<close> on a bounded
  deque that is full discards from the left end.
\<close>

record 'a History =
  maxlen :: "nat option"
  history :: "'a list"
  history_forward :: "'a list"

definition deque_append :: "nat option \<Rightarrow> 'a list \<Rightarrow> 'a \<Rightarrow> 'a list" where
  "deque_append m xs x =
     (case m of
        None \<Rightarrow> xs @ [x]
      | Some k \<Rightarrow> drop (length (xs @ [x]) - k) (xs @ [x]))"

definition History_init :: "nat option \<Rightarrow> 'a History" where
  "History_init m = \<lparr>maxlen = m, history = [], history_forward = []\<rparr>"

definition History_add :: "'a History \<Rightarrow> 'a \<Rightarrow> 'a History" where
  "History_add h item =
     (if length (history h) = 0 \<or> last (history h) \<noteq> item
      then h\<lparr>history := deque_append (maxlen h) (history h) item, history_forward := []\<rparr>
      else h)"

definition History_top :: "'a History \<Rightarrow> error + 'a" where
  "History_top h = (case history h of [] \<Rightarrow> Inl HistoryEmptyException | _ # _ \<Rightarrow> Inr (last (history h)))"

definition History_bottom :: "'a History \<Rightarrow> error + 'a" where
  "History_bottom h = (case history h of [] \<Rightarrow> Inl HistoryEmptyException | x # _ \<Rightarrow> Inr x)"

text \<open>
  \<^verbatim>\<open>back\<close> and \<^verbatim>\<open>forward\<close> mutate the two deques and then return \<^verbatim>\<open>self.top()\<close>,
  which raises on an empty back stack: the result is the value or the exception,
  paired with the History as the call leaves it.
\<close>

definition History_back :: "'a History \<Rightarrow> (error + 'a) \<times> 'a History" where
  "History_back h =
     (let h' = (if length (history h) > 1
                then h\<lparr>history := butlast (history h),
                       history_forward := deque_append (maxlen h) (history_forward h) (last (history h))\<rparr>
                else h)
      in (History_top h', h'))"

definition History_forward :: "'a History \<Rightarrow> (error + 'a) \<times> 'a History" where
  "History_forward h =
     (let h' = (if length (history_forward h) > 0
                then h\<lparr>history_forward := butlast (history_forward h),
                       history := deque_append (maxlen h) (history h) (last (history_forward h))\<rparr>
                else h)
      in (History_top h', h'))"

text \<open>\<^verbatim>\<open>move\<close> returns \<^verbatim>\<open>None\<close> for \<^verbatim>\<open>n == 0\<close>.\<close>

definition History_move :: "'a History \<Rightarrow> int \<Rightarrow> (error + 'a option) \<times> 'a History" where
  "History_move h n =
     (if n > 0 then (case History_forward h of (r, h') \<Rightarrow> (map_sum id Some r, h'))
      else if n < 0 then (case History_back h of (r, h') \<Rightarrow> (map_sum id Some r, h'))
      else (Inr None, h))"

text \<open>
  The attributes an instance of the class \<^verbatim>\<open>History\<close> of history.py has: the methods
  the class body defines and the two fields \<^verbatim>\<open>__init__\<close> sets. Looking up any other
  (non-dunder) name on a History raises \<^verbatim>\<open>AttributeError\<close>.
\<close>

definition History_attributes :: "string list" where
  "History_attributes =
     [''__init__'', ''add'', ''__len__'', ''top'', ''bottom'', ''back'', ''move'',
      ''__iter__'', ''next'', ''forward'', ''history'', ''history_forward'']"

definition History_getattr :: "string \<Rightarrow> error + string" where
  "History_getattr attr =
     (if attr \<in> set History_attributes then Inr attr else Inl (AttributeError attr))"

text \<open>
  \<^verbatim>\<open>Tab.inherit_history\<close> (tab.py) is the one statement
  \<^verbatim>\<open>self.history.rebase(other_history)\<close>: it first looks \<^verbatim>\<open>rebase\<close> up on the
  tab's History and then calls what it found. The model returns the exception of the
  lookup and the History unchanged when the lookup fails; no method body exists for
  the other case, there the name found is returned.
\<close>

definition inherit_history :: "'a History \<Rightarrow> 'a History \<Rightarrow> (error + string) \<times> 'a History" where
  "inherit_history self_history other_history = (History_getattr ''rebase'', self_history)"

section \<open>Commands (ranger/api/commands.py)\<close>

text \<open>
  A command class, as far as \<^verbatim>\<open>CommandContainer\<close> reads it: the class's own
  identifier (\<^verbatim>\<open>__name__\<close>, which also stands for the identity of the class object),
  the \<^verbatim>\<open>name\<close> entry of the class's own dictionary (absent or \<^verbatim>\<open>None\<close> is
  \<open>None\<close>) and \<^verbatim>\<open>allow_abbrev\<close>.
\<close>

record command_class =
  cls_ident :: string
  cls_name :: "string option"
  allow_abbrev :: bool

text \<open>
  The two dictionaries of the container are association lists in insertion order:
  \<open>map_of\<close> is the lookup, \<open>AList.update\<close> is the assignment \<^verbatim>\<open>d[k] = v\<close>
  (replace in place, or append a new key).
\<close>

record command_container =
  commands :: "(string \<times> command_class) list"
  aliases :: "(string \<times> string) list"

definition CommandContainer_init :: command_container where
  "CommandContainer_init = \<lparr>commands = [], aliases = []\<rparr>"

definition alias_cmd :: "command_container \<Rightarrow> string \<Rightarrow> string \<Rightarrow> command_container" where
  "alias_cmd c new old =
     (case map_of (commands c) old of
        Some cls \<Rightarrow> c\<lparr>commands := AList.update new cls (commands c),
                      aliases := AList.update new old (aliases c)\<rparr>
      | None \<Rightarrow> c)"

definition register :: "command_container \<Rightarrow> command_class \<Rightarrow> command_container" where
  "register c command =
     (case cls_name command of
        Some n \<Rightarrow> (if n \<noteq> [] then c\<lparr>commands := AList.update n command (commands c)\<rparr>
                   else c\<lparr>commands := AList.update (cls_ident command) command (commands c)\<rparr>)
      | None \<Rightarrow> c\<lparr>commands := AList.update (cls_ident command) command (commands c)\<rparr>)"

text \<open>
  The list comprehension of \<^verbatim>\<open>get_command\<close>: the classes of the entries whose class
  allows abbreviation and whose key starts with \<^verbatim>\<open>name\<close>, or whose key is \<^verbatim>\<open>name\<close>.
\<close>

definition matching :: "(string \<times> command_class) list \<Rightarrow> string \<Rightarrow> command_class list" where
  "matching cmds name =
     map snd (filter (\<lambda>(cmd, cls). (allow_abbrev cls \<and> prefix name cmd) \<or> cmd = name) cmds)"

text \<open>
  \<^verbatim>\<open>get_command\<close>. With \<^verbatim>\<open>abbrev\<close> false a missing key gives \<^verbatim>\<open>None\<close>. With
  \<^verbatim>\<open>abbrev\<close> true and several matches, the test \<^verbatim>\<open>self.commands[name] in lst\<close>
  subscripts the dictionary, which raises KeyError for a name that is not a key.
\<close>

definition get_command :: "command_container \<Rightarrow> string \<Rightarrow> bool \<Rightarrow> error + command_class option" where
  "get_command c name abbrev =
     (if abbrev then
        (let lst = matching (commands c) name in
         if length lst = 0 then Inl KeyError
         else if length lst = 1 then Inr (Some (hd lst))
         else (case map_of (commands c) name of
                 None \<Rightarrow> Inl KeyError
               | Some cls \<Rightarrow> if cls \<in> set lst then Inr (Some cls)
                             else Inl (ValueError ''Ambiguous command'')))
      else Inr (map_of (commands c) name))"

definition command_generator :: "command_container \<Rightarrow> string \<Rightarrow> string list" where
  "command_generator c start = map (\<lambda>cmd. cmd @ '' '') (filter (prefix start) (map fst (commands c)))"

subsection \<open>The Command line helpers\<close>

text \<open>
  \<^verbatim>\<open>str.split()\<close> with no argument splits at runs of whitespace and drops empty
  words. What counts as whitespace depends on the interpreter, and the code runs under
  both: for a Python 2 byte string the six ASCII characters space, tab, newline,
  vertical tab, form feed and carriage return; for a Python 3 string also the
  separators 0x1C to 0x1F, 0x85 and 0xA0. A character of the model is a code point
  below 256; the Unicode spaces above that are outside it.
\<close>

datatype python = Python2 | Python3

definition py_isspace :: "python \<Rightarrow> char \<Rightarrow> bool" where
  "py_isspace v ch =
     (ch \<in> set [CHR '' '', CHR 0x09, CHR 0x0A, CHR 0x0B, CHR 0x0C, CHR 0x0D]
      \<or> (v = Python3 \<and> ch \<in> set [CHR 0x1C, CHR 0x1D, CHR 0x1E, CHR 0x1F, CHR 0x85, CHR 0xA0]))"

fun split_ws :: "python \<Rightarrow> string \<Rightarrow> string \<Rightarrow> string list" where
  "split_ws v [] word = (if word = [] then [] else [word])"
| "split_ws v (ch # cs) word =
     (if py_isspace v ch then (if word = [] then split_ws v cs [] else word # split_ws v cs [])
      else split_ws v cs (word @ [ch]))"

text \<open>
  The fields of a \<^verbatim>\<open>Command\<close> that the line helpers read: the raw line, its
  words, the cursor position and the shift counter \<^verbatim>\<open>_shifted\<close>. (\<^verbatim>\<open>setargs\<close>
  also stores its argument \<^verbatim>\<open>n\<close>, which no helper reads.)
\<close>

record command =
  line :: string
  args :: "string list"
  pos :: nat
  shifted :: nat

definition setargs :: "python \<Rightarrow> string \<Rightarrow> nat option \<Rightarrow> command" where
  "setargs v raw p =
     \<lparr>line = raw, args = split_ws v raw [],
      pos = (case p of None \<Rightarrow> length raw | Some k \<Rightarrow> k), shifted = 0\<rparr>"

text \<open>
  \<^verbatim>\<open>arg(n)\<close>: list subscript with Python's negative indices, the empty string on
  IndexError.
\<close>

definition arg :: "command \<Rightarrow> int \<Rightarrow> string" where
  "arg c n =
     (let len = int (length (args c)); j = (if n < 0 then len + n else n)
      in if 0 \<le> j \<and> j < len then args c ! nat j else [])"

text \<open>
  The loop of \<^verbatim>\<open>rest(n)\<close> over the characters of the line, with its two variables
  \<^verbatim>\<open>got_space\<close> and \<^verbatim>\<open>word_count\<close>; \<open>target\<close> is \<^verbatim>\<open>n + self._shifted\<close>. The
  loop returns \<^verbatim>\<open>self.line[i:]\<close> at the first non-space character that follows a
  space when the count of space runs seen equals the target.
\<close>

fun rest_loop :: "string \<Rightarrow> bool \<Rightarrow> int \<Rightarrow> int \<Rightarrow> string" where
  "rest_loop [] got_space word_count target = []"
| "rest_loop (ch # cs) got_space word_count target =
     (if ch = CHR '' '' then
        (if \<not> got_space then rest_loop cs True (word_count + 1) target
         else rest_loop cs got_space word_count target)
      else if got_space then
        (if word_count = target then ch # cs
         else rest_loop cs False word_count target)
      else rest_loop cs got_space word_count target)"

definition rest :: "command \<Rightarrow> int \<Rightarrow> string" where
  "rest c n = rest_loop (line c) False 0 (n + int (shifted c))"

fun join_space :: "string list \<Rightarrow> string" where
  "join_space [] = []"
| "join_space [w] = w"
| "join_space (w # ws) = w @ '' '' @ join_space ws"

definition start :: "command \<Rightarrow> nat \<Rightarrow> string" where
  "start c n = join_space (take n (args c)) @ '' ''"

text \<open>
  \<^verbatim>\<open>shift\<close>: \<^verbatim>\<open>del self.args[0]\<close> raises IndexError on an empty list, before the
  counter is touched.
\<close>

definition shift :: "command \<Rightarrow> error + command" where
  "shift c =
     (case args c of
        [] \<Rightarrow> Inl IndexError
      | _ # ws \<Rightarrow> Inr (c\<lparr>args := ws, shifted := shifted c + 1\<rparr>))"

text \<open>A command class for concrete evaluations.\<close>

definition edit_cls :: command_class where
  "edit_cls = \<lparr>cls_ident = ''edit'', cls_name = None, allow_abbrev = True\<rparr>"

section \<open>Signals (ranger/ext/signals.py)\<close>

text \<open>
  What \<^verbatim>\<open>signal_bind\<close> reads of the function it is given: the argument count of its
  code object and whether it is a bound method (has \<^verbatim>\<open>__self__\<close>); \<open>fn_ident\<close>
  stands for the function object itself.
\<close>

record callable =
  fn_ident :: nat
  co_argcount :: int
  has_self :: bool

text \<open>
  What a handler stores as its function: the function itself, a weak proxy of it, or
  for a weakly bound method the pair of the plain function and a weak proxy of its
  instance.
\<close>

datatype handler_function =
    Strong callable
  | WeakProxy callable
  | WeakMethod callable

text \<open>
  A \<^verbatim>\<open>SignalHandler\<close> object. \<open>hid\<close> is the identity of the object: the dispatcher
  numbers the handlers in the order in which \<^verbatim>\<open>signal_bind\<close> creates them, so a
  smaller \<open>hid\<close> is an earlier bind. Priorities are rational numbers; Python compares
  its numbers exactly, and the code only compares and negates them.
\<close>

record handler =
  hid :: nat
  signal_name :: string
  handler_fn :: handler_function
  priority :: rat
  pass_signal :: bool
  active :: bool

record dispatcher =
  signals :: "string \<rightharpoonup> handler list"
  next_hid :: nat

definition SignalDispatcher_init :: dispatcher where
  "SignalDispatcher_init = \<lparr>signals = Map.empty, next_hid = 0\<rparr>"

definition signal_clear :: "dispatcher \<Rightarrow> dispatcher" where
  "signal_clear d = d\<lparr>signals := Map.empty\<rparr>"

definition SignalHandler_init :: "nat \<Rightarrow> string \<Rightarrow> handler_function \<Rightarrow> rat \<Rightarrow> bool \<Rightarrow> handler" where
  "SignalHandler_init ident name f p ps =
     \<lparr>hid = ident, signal_name = name, handler_fn = f, priority = max 0 (min 1 p),
      pass_signal = ps, active = True\<rparr>"

text \<open>
  \<^verbatim>\<open>signal_bind\<close>: the new handler is appended to the list of the name and the list
  is sorted in place with the key \<^verbatim>\<open>-handler.priority\<close>. Python's \<^verbatim>\<open>list.sort\<close> is
  stable, as insertion sort (\<open>sort_key\<close>) is.
\<close>

definition signal_bind ::
  "dispatcher \<Rightarrow> string \<Rightarrow> callable \<Rightarrow> rat \<Rightarrow> bool \<Rightarrow> handler \<times> dispatcher" where
  "signal_bind d name f p weak =
     (let handlers = (case signals d name of Some hs \<Rightarrow> hs | None \<Rightarrow> []);
          nargs = (if has_self f then co_argcount f - 1 else co_argcount f);
          stored = (if has_self f then (if weak then WeakMethod f else Strong f)
                    else (if weak then WeakProxy f else Strong f));
          h = SignalHandler_init (next_hid d) name stored p (nargs > 0)
      in (h, d\<lparr>signals := (signals d)(name \<mapsto> sort_key (\<lambda>x. - priority x) (handlers @ [h])),
               next_hid := next_hid d + 1\<rparr>))"

text \<open>\<^verbatim>\<open>list.remove\<close> of a handler object: the first element that is this object.\<close>

fun remove_handler :: "nat \<Rightarrow> handler list \<Rightarrow> handler list" where
  "remove_handler i [] = []"
| "remove_handler i (h # hs) = (if hid h = i then hs else h # remove_handler i hs)"

definition signal_unbind :: "dispatcher \<Rightarrow> handler \<Rightarrow> dispatcher" where
  "signal_unbind d h =
     (case signals d (signal_name h) of
        None \<Rightarrow> d
      | Some hs \<Rightarrow> d\<lparr>signals := (signals d)(signal_name h \<mapsto> remove_handler (hid h) hs)\<rparr>)"

text \<open>
  \<^verbatim>\<open>signal_garbage_collect\<close> deletes, in every list, the handlers whose weak
  reference has expired; \<open>expired\<close> says which referents are gone.
\<close>

definition is_weak :: "handler_function \<Rightarrow> bool" where
  "is_weak f = (case f of Strong _ \<Rightarrow> False | WeakProxy _ \<Rightarrow> True | WeakMethod _ \<Rightarrow> True)"

definition signal_garbage_collect :: "dispatcher \<Rightarrow> (handler \<Rightarrow> bool) \<Rightarrow> dispatcher" where
  "signal_garbage_collect d expired =
     d\<lparr>signals := (\<lambda>name. map_option (filter (\<lambda>h. \<not> (is_weak (handler_fn h) \<and> expired h)))
                                     (signals d name))\<rparr>"

text \<open>
  The attribute \<^verbatim>\<open>active\<close> of a handler object is set from outside the class; the
  object is shared with the dispatcher's list.
\<close>

definition set_active :: "dispatcher \<Rightarrow> nat \<Rightarrow> bool \<Rightarrow> dispatcher" where
  "set_active d i b =
     d\<lparr>signals := (\<lambda>name. map_option (map (\<lambda>h. if hid h = i then h\<lparr>active := b\<rparr> else h))
                                     (signals d name))\<rparr>"

text \<open>
  What one call of a handler's function does, as far as \<^verbatim>\<open>signal_emit\<close> can tell:
  whether it called \<^verbatim>\<open>stop()\<close> on the signal, and the exception it ended with.
  The loop runs over a snapshot of the list, so a function that binds or unbinds
  handlers while it runs does not change which handlers the loop visits or their order;
  such calls are steps of their own in a run.
\<close>

record outcome =
  stop_called :: bool
  raised :: "error option"

text \<open>
  Whether looking at a handler's function raises ReferenceError: only a weak proxy of a
  plain function whose referent is gone does. (The pair stored for a weakly bound
  method is a tuple, whatever has become of the instance.) \<open>expired\<close> says which
  referents are gone.
\<close>

definition proxy_expired :: "(handler \<Rightarrow> bool) \<Rightarrow> handler \<Rightarrow> bool" where
  "proxy_expired expired h =
     (case handler_fn h of Strong _ \<Rightarrow> False | WeakProxy _ \<Rightarrow> expired h | WeakMethod _ \<Rightarrow> False)"

text \<open>
  The loop of \<^verbatim>\<open>signal_emit\<close> over the snapshot \<^verbatim>\<open>tuple(handlers)\<close>. \<open>live\<close> is the
  dispatcher's own list; \<open>tr\<close> collects the handlers called, in the order of the
  calls. For an active handler the loop first evaluates
  \<^verbatim>\<open>isinstance(handler.function, tuple)\<close>, outside the \<^verbatim>\<open>try\<close>: on an expired weak
  proxy of a plain function this raises ReferenceError, which leaves
  \<^verbatim>\<open>signal_emit\<close> with the handler still bound and not called. Inside the \<^verbatim>\<open>try\<close>
  the function is called: a ReferenceError of the call removes the handler from the
  dispatcher's list and the loop goes on, any other exception leaves the loop. A
  handler that is not passed the signal cannot stop it.
\<close>

fun propagate ::
  "(handler \<Rightarrow> bool) \<Rightarrow> (handler \<Rightarrow> outcome) \<Rightarrow> handler list \<Rightarrow> handler list \<Rightarrow> handler list
   \<Rightarrow> (error + bool) \<times> handler list \<times> handler list" where
  "propagate expired call [] live tr = (Inr True, live, tr)"
| "propagate expired call (h # snapshot) live tr =
     (if active h then
        (if proxy_expired expired h then (Inl ReferenceError, live, tr)
         else
           (case raised (call h) of
              Some ReferenceError \<Rightarrow>
                (if pass_signal h \<and> stop_called (call h)
                 then (Inr False, remove_handler (hid h) live, tr @ [h])
                 else propagate expired call snapshot (remove_handler (hid h) live) (tr @ [h]))
            | Some e \<Rightarrow> (Inl e, live, tr @ [h])
            | None \<Rightarrow>
                (if pass_signal h \<and> stop_called (call h)
                 then (Inr False, live, tr @ [h])
                 else propagate expired call snapshot live (tr @ [h]))))
      else propagate expired call snapshot live tr)"

text \<open>
  \<^verbatim>\<open>signal_emit\<close> returns its result (or the exception that left it), the dispatcher
  as the call leaves it, and the handlers it called in order.
\<close>

definition signal_emit ::
  "dispatcher \<Rightarrow> (handler \<Rightarrow> bool) \<Rightarrow> (handler \<Rightarrow> outcome) \<Rightarrow> string
   \<Rightarrow> (error + bool) \<times> dispatcher \<times> handler list" where
  "signal_emit d expired call name =
     (case signals d name of
        None \<Rightarrow> (Inr True, d, [])
      | Some handlers \<Rightarrow>
          (if handlers = [] then (Inr True, d, [])
           else (case propagate expired call handlers handlers [] of
                   (r, live, tr) \<Rightarrow> (r, d\<lparr>signals := (signals d)(name \<mapsto> live)\<rparr>, tr))))"

text \<open>The operations on a dispatcher, and a run of them from a state.\<close>

datatype dispatcher_op =
    Bind string callable rat bool
  | Unbind handler
  | SetActive nat bool
  | Collect "handler \<Rightarrow> bool"
  | Emit "handler \<Rightarrow> bool" "handler \<Rightarrow> outcome" string
  | Clear

fun dispatcher_step :: "dispatcher \<Rightarrow> dispatcher_op \<Rightarrow> dispatcher" where
  "dispatcher_step d (Bind name f p weak) = snd (signal_bind d name f p weak)"
| "dispatcher_step d (Unbind h) = signal_unbind d h"
| "dispatcher_step d (SetActive i b) = set_active d i b"
| "dispatcher_step d (Collect expired) = signal_garbage_collect d expired"
| "dispatcher_step d (Emit expired call name) = fst (snd (signal_emit d expired call name))"
| "dispatcher_step d Clear = signal_clear d"

definition run_dispatcher :: "dispatcher_op list \<Rightarrow> dispatcher" where
  "run_dispatcher ops = foldl dispatcher_step SignalDispatcher_init ops"

text \<open>
  The order in which two handlers of one emission are called: the first has the
  strictly higher priority, or the same priority and was bound earlier.
\<close>

definition called_before :: "handler \<Rightarrow> handler \<Rightarrow> bool" where
  "called_before a b = (priority b < priority a \<or> (priority a = priority b \<and> hid a < hid b))"

text \<open>
  The invariant of a dispatcher: every handler list is in the order \<open>called_before\<close>,
  and its handlers were created by this dispatcher.
\<close>

definition ordered_dispatcher :: "dispatcher \<Rightarrow> bool" where
  "ordered_dispatcher d =
     (\<forall>name hs. signals d name = Some hs \<longrightarrow>
        sorted_wrt called_before hs \<and> (\<forall>h\<in>set hs. hid h < next_hid d))"

text \<open>Handlers and outcomes for concrete evaluations.\<close>

definition plain_fn :: "nat \<Rightarrow> callable" where
  "plain_fn i = \<lparr>fn_ident = i, co_argcount = 1, has_self = False\<rparr>"

definition returns_normally :: "handler \<Rightarrow> outcome" where
  "returns_normally h = \<lparr>stop_called = False, raised = None\<rparr>"

definition nothing_expired :: "handler \<Rightarrow> bool" where
  "nothing_expired h = False"

definition three_binds :: "dispatcher_op list" where
  "three_binds =
     [Bind ''cd'' (plain_fn 0) (1/10) False,
      Bind ''cd'' (plain_fn 1) (9/10) False,
      Bind ''cd'' (plain_fn 2) (9/10) False]"

definition two_binds_above_one :: "dispatcher_op list" where
  "two_binds_above_one =
     [Bind ''cd'' (plain_fn 0) 1 False,
      Bind ''cd'' (plain_fn 1) (3/2) False]"

section \<open>Previews (ranger/core/actions.py)\<close>

text \<open>
  The values \<^verbatim>\<open>get_preview\<close> returns and caches: \<^verbatim>\<open>None\<close>, the text a preview
  job wrote, or (with the preview script switched off) the opened file.
\<close>

datatype pyobj = PyNone | PyStr string | PyFile string

text \<open>
  One entry of \<^verbatim>\<open>self.previews\<close>: the dictionary \<^verbatim>\<open>data\<close> with its keys
  \<^verbatim>\<open>'loading'\<close> and \<^verbatim>\<open>'foundpreview'\<close> (absent until a job has ended) and its
  keys \<^verbatim>\<open>(width, height)\<close>, where -1 stands for any width or height.
\<close>

record preview_data =
  loading :: bool
  foundpreview :: "bool option"
  cache :: "int \<times> int \<rightharpoonup> pyobj"

definition new_preview_data :: preview_data where
  "new_preview_data = \<lparr>loading = False, foundpreview = None, cache = Map.empty\<rparr>"

text \<open>
  A submitted \<^verbatim>\<open>CommandLoader\<close> with what its callbacks close over: the path, the
  width and height of the request, and the dictionary \<^verbatim>\<open>data\<close>, by its address.
\<close>

record job =
  job_path :: string
  job_width :: int
  job_height :: int
  job_data :: nat

text \<open>
  The state of the file manager that the preview functions touch. The entries of
  \<^verbatim>\<open>self.previews\<close> are dictionary objects that the callbacks of a job share with
  the cache, so \<open>previews\<close> maps a path to the address of its dictionary and
  \<open>heap\<close> holds the dictionaries. \<open>loader_queue\<close> holds the jobs handed to
  \<^verbatim>\<open>self.loader.add\<close> that have not ended yet.
\<close>

record fm_state =
  previews :: "string \<rightharpoonup> nat"
  heap :: "nat \<Rightarrow> preview_data"
  next_addr :: nat
  loader_queue :: "job list"
  ui_need_redraw :: bool
  browser_need_redraw :: bool

definition fm_init :: fm_state where
  "fm_init = \<lparr>previews = Map.empty, heap = (\<lambda>_. new_preview_data), next_addr = 0,
              loader_queue = [], ui_need_redraw = False, browser_need_redraw = False\<rparr>"

text \<open>
  What the preview functions read of their surroundings: the two settings, the
  current file \<^verbatim>\<open>self.env.cf\<close> (which may be \<^verbatim>\<open>None\<close>) and the readable files
  with their contents.
\<close>

record file_obj =
  realpath :: string
  is_file :: bool

record fm_env =
  preview_script :: "string option"
  use_preview_script :: bool
  env_cf :: "file_obj option"
  files :: "string \<rightharpoonup> string"

definition script_enabled :: "fm_env \<Rightarrow> bool" where
  "script_enabled e =
     ((case preview_script e of None \<Rightarrow> False | Some s \<Rightarrow> s \<noteq> []) \<and> use_preview_script e)"

definition update_preview :: "fm_state \<Rightarrow> string \<Rightarrow> bool option \<times> fm_state" where
  "update_preview s path =
     (case previews s path of
        Some a \<Rightarrow> (None, s\<lparr>previews := (previews s)(path := None), ui_need_redraw := True\<rparr>)
      | None \<Rightarrow> (Some False, s))"

text \<open>
  The nested \<^verbatim>\<open>data.get\<close> calls of \<^verbatim>\<open>get_preview\<close>: the outermost lookup is
  \<^verbatim>\<open>(-1, -1)\<close>, its default the lookup of \<^verbatim>\<open>(width, -1)\<close>, then \<^verbatim>\<open>(-1, height)\<close>,
  then \<^verbatim>\<open>(width, height)\<close>, whose default is \<^verbatim>\<open>False\<close> (here \<open>None\<close>).
\<close>

definition find_cached :: "(int \<times> int \<rightharpoonup> pyobj) \<Rightarrow> int \<Rightarrow> int \<Rightarrow> pyobj option" where
  "find_cached c width height =
     (case c (-1, -1) of
        Some v \<Rightarrow> Some v
      | None \<Rightarrow>
          (case c (width, -1) of
             Some v \<Rightarrow> Some v
           | None \<Rightarrow>
               (case c (-1, height) of
                  Some v \<Rightarrow> Some v
                | None \<Rightarrow> c (width, height))))"

text \<open>
  The second half of \<^verbatim>\<open>get_preview\<close>, for the dictionary at address \<open>a\<close>: return
  what was found, or set \<^verbatim>\<open>loading\<close>, submit a job and return \<^verbatim>\<open>None\<close>.
\<close>

definition lookup_or_submit ::
  "fm_state \<Rightarrow> nat \<Rightarrow> string \<Rightarrow> int \<Rightarrow> int \<Rightarrow> pyobj \<times> fm_state" where
  "lookup_or_submit s a path width height =
     (case find_cached (cache (heap s a)) width height of
        None \<Rightarrow>
          (PyNone,
           s\<lparr>heap := (heap s)(a := (heap s a)\<lparr>loading := True\<rparr>),
             loader_queue := loader_queue s @
               [\<lparr>job_path = path, job_width = width, job_height = height, job_data = a\<rparr>]\<rparr>)
      | Some found \<Rightarrow> (found, s))"

definition get_preview ::
  "fm_env \<Rightarrow> fm_state \<Rightarrow> string \<Rightarrow> int \<Rightarrow> int \<Rightarrow> pyobj \<times> fm_state" where
  "get_preview e s path width height =
     (if script_enabled e then
        (case previews s path of
           None \<Rightarrow>
             lookup_or_submit
               (s\<lparr>previews := (previews s)(path \<mapsto> next_addr s),
                  heap := (heap s)(next_addr s := new_preview_data),
                  next_addr := next_addr s + 1\<rparr>)
               (next_addr s) path width height
         | Some a \<Rightarrow>
             (if loading (heap s a) then (PyNone, s)
              else lookup_or_submit s a path width height))
      else (case files e path of Some _ \<Rightarrow> (PyFile path, s) | None \<Rightarrow> (PyNone, s)))"

text \<open>
  The callback \<^verbatim>\<open>on_after\<close> of a job, called with the exit code of the process and
  its output. It writes to the dictionary the job was created with. Two statements can
  raise before \<^verbatim>\<open>loading\<close> is reset: the \<^verbatim>\<open>open\<close> of exit code 2 and the read of
  \<^verbatim>\<open>self.env.cf.realpath\<close> when there is no current file. The refresh of the pager
  that ends the callback belongs to the user interface; the \<^verbatim>\<open>get_preview\<close> call it
  may lead to is a call of its own.
\<close>

definition store :: "fm_state \<Rightarrow> nat \<Rightarrow> (preview_data \<Rightarrow> preview_data) \<Rightarrow> fm_state" where
  "store s a f = s\<lparr>heap := (heap s)(a := f (heap s a))\<rparr>"

definition cache_result ::
  "fm_env \<Rightarrow> fm_state \<Rightarrow> job \<Rightarrow> int \<Rightarrow> string \<Rightarrow> error option \<times> fm_state" where
  "cache_result e s j exit content =
     (let a = job_data j; w = job_width j; h = job_height j in
      if exit = 0 then (None, store s a (\<lambda>d. d\<lparr>cache := (cache d)((w, h) \<mapsto> PyStr content)\<rparr>))
      else if exit = 3 then (None, store s a (\<lambda>d. d\<lparr>cache := (cache d)((-1, h) \<mapsto> PyStr content)\<rparr>))
      else if exit = 4 then (None, store s a (\<lambda>d. d\<lparr>cache := (cache d)((w, -1) \<mapsto> PyStr content)\<rparr>))
      else if exit = 5 then (None, store s a (\<lambda>d. d\<lparr>cache := (cache d)((-1, -1) \<mapsto> PyStr content)\<rparr>))
      else if exit = 1 then
        (None, store s a (\<lambda>d. d\<lparr>cache := (cache d)((-1, -1) \<mapsto> PyNone), foundpreview := Some False\<rparr>))
      else if exit = 2 then
        (case files e (job_path j) of
           None \<Rightarrow> (Some IOError, s)
         | Some txt \<Rightarrow>
             (None, store s a (\<lambda>d. d\<lparr>cache := (cache d)((-1, -1) \<mapsto> PyStr (take (1024 * 32) txt))\<rparr>)))
      else (None, store s a (\<lambda>d. d\<lparr>cache := (cache d)((-1, -1) \<mapsto> PyNone)\<rparr>)))"

definition on_after ::
  "fm_env \<Rightarrow> fm_state \<Rightarrow> job \<Rightarrow> int \<Rightarrow> string \<Rightarrow> error option \<times> fm_state" where
  "on_after e s j exit content =
     (case cache_result e (store s (job_data j) (\<lambda>d. d\<lparr>foundpreview := Some True\<rparr>)) j exit content of
        (Some err, s1) \<Rightarrow> (Some err, s1)
      | (None, s1) \<Rightarrow>
          (case env_cf e of
             None \<Rightarrow> (Some (AttributeError ''realpath''), s1)
           | Some cf \<Rightarrow>
               (None,
                store (if realpath cf = job_path j then s1\<lparr>browser_need_redraw := True\<rparr> else s1)
                      (job_data j) (\<lambda>d. d\<lparr>loading := False\<rparr>))))"

definition on_destroy :: "fm_state \<Rightarrow> job \<Rightarrow> fm_state" where
  "on_destroy s j = s\<lparr>previews := (previews s)(job_path j := None)\<rparr>"

text \<open>
  The steps of the preview cache: a request, the end of the job at a position of the
  loader's queue (with its exit code and output), an invalidation, and the
  destruction of a job. Each step comes with the surroundings it runs in.
\<close>

datatype preview_op =
    GetPreview string int int
  | JobDone nat int string
  | UpdatePreview string
  | JobDestroyed nat

fun preview_step :: "fm_state \<Rightarrow> fm_env \<times> preview_op \<Rightarrow> fm_state" where
  "preview_step s (e, GetPreview path width height) = snd (get_preview e s path width height)"
| "preview_step s (e, JobDone i exit content) =
     (if i < length (loader_queue s)
      then (snd (on_after e s (loader_queue s ! i) exit content))
             \<lparr>loader_queue := take i (loader_queue s) @ drop (Suc i) (loader_queue s)\<rparr>
      else s)"
| "preview_step s (e, UpdatePreview path) = snd (update_preview s path)"
| "preview_step s (e, JobDestroyed i) =
     (if i < length (loader_queue s)
      then (on_destroy s (loader_queue s ! i))
             \<lparr>loader_queue := take i (loader_queue s) @ drop (Suc i) (loader_queue s)\<rparr>
      else s)"

definition run_previews :: "(fm_env \<times> preview_op) list \<Rightarrow> fm_state" where
  "run_previews ops = foldl preview_step fm_init ops"


text \<open>Surroundings for concrete evaluations: the script is on, the current file is \<^verbatim>\<open>/f\<close>.\<close>

definition env_on :: fm_env where
  "env_on = \<lparr>preview_script = Some ''scope.sh'', use_preview_script = True,
             env_cf = Some \<lparr>realpath = ''/f'', is_file = True\<rparr>, files = Map.empty\<rparr>"

text \<open>A state whose only entry, for \<^verbatim>\<open>/f\<close>, is not loading and holds the given cache.\<close>

definition state_with_cache :: "(int \<times> int \<rightharpoonup> pyobj) \<Rightarrow> fm_state" where
  "state_with_cache c =
     fm_init\<lparr>previews := [''/f'' \<mapsto> 0],
             heap := (\<lambda>_. new_preview_data\<lparr>cache := c\<rparr>),
             next_addr := 1\<rparr>"





section \<open>Tabs (ranger/core/tab.py)\<close>

text \<open>
  A \<^verbatim>\<open>Directory\<close> object, as far as \<^verbatim>\<open>Tab.enter_dir\<close> touches it: its path, the
  two sort settings the tab writes, its files and its cursor. The file manager caches
  one object per path, so a tab refers to a directory by its path.
\<close>

record directory =
  dir_path :: string
  sort_directories_first :: bool
  sort_reverse :: bool
  dir_files :: "string list"
  dir_pointer :: nat

text \<open>
  What \<^verbatim>\<open>enter_dir\<close> calls outside tab.py: the path functions of \<^verbatim>\<open>os.path\<close>
  (\<open>resolve cur p\<close> is \<^verbatim>\<open>normpath(join(cur, expanduser(p)))\<close>), \<^verbatim>\<open>os.chdir\<close> (which
  succeeds or raises), the constructor and the methods of \<^verbatim>\<open>Directory\<close>, and the two
  sort settings.
\<close>

record tab_env =
  resolve :: "string \<Rightarrow> string \<Rightarrow> string"
  isdir :: "string \<Rightarrow> bool"
  chdir_ok :: "string \<Rightarrow> bool"
  new_directory :: "string \<Rightarrow> directory"
  load_content_if_outdated :: "directory \<Rightarrow> directory"
  move_to_obj :: "directory \<Rightarrow> string \<Rightarrow> directory"
  sort_if_outdated :: "directory \<Rightarrow> directory"
  pointed_obj :: "directory \<Rightarrow> string option"
  setting_sort_directories_first :: bool
  setting_sort_reverse :: bool

text \<open>
  The file manager as a tab sees it: the cache of directory objects, and the
  \<^verbatim>\<open>cd\<close> signals emitted so far, each with its fields \<^verbatim>\<open>previous\<close> and \<^verbatim>\<open>new\<close>.
\<close>

record tab_fm =
  directories :: "string \<rightharpoonup> directory"
  cd_events :: "(string option \<times> string option) list"

record tab =
  tab_path :: string
  thisdir :: "string option"
  thisfile :: "string option"
  pathway :: "string list"
  tab_history :: "string History"

text \<open>
  Modelled from the spec: \<^verbatim>\<open>fm.get_directory\<close> is not in the sources at hand; the
  spec says it obtains the shared Directory for the path from the cache, creating it if
  absent.
\<close>

definition get_directory :: "tab_env \<Rightarrow> tab_fm \<Rightarrow> string \<Rightarrow> string \<times> tab_fm" where
  "get_directory e fm path =
     (case directories fm path of
        Some d \<Rightarrow> (path, fm)
      | None \<Rightarrow> (path, fm\<lparr>directories := (directories fm)(path \<mapsto> new_directory e path)\<rparr>))"

definition modify_directory :: "tab_fm \<Rightarrow> string \<Rightarrow> (directory \<Rightarrow> directory) \<Rightarrow> tab_fm" where
  "modify_directory fm key f =
     fm\<lparr>directories := (\<lambda>k. if k = key then map_option f (directories fm k) else directories fm k)\<rparr>"

text \<open>\<^verbatim>\<open>str.split('/')\<close> and \<^verbatim>\<open>os.path.join\<close> of two components.\<close>

fun split_slash :: "string \<Rightarrow> string \<Rightarrow> string list" where
  "split_slash [] word = [word]"
| "split_slash (ch # cs) word =
     (if ch = CHR ''/'' then word # split_slash cs [] else split_slash cs (word @ [ch]))"

definition path_join :: "string \<Rightarrow> string \<Rightarrow> string" where
  "path_join a b =
     (if b \<noteq> [] \<and> hd b = CHR ''/'' then b
      else if a = [] \<or> last a = CHR ''/'' then a @ b
      else a @ ''/'' @ b)"

text \<open>
  The loop that builds the pathway: \<^verbatim>\<open>currentpath\<close> starts as \<^verbatim>\<open>/\<close>, and every
  component of the split path is joined to it and looked up in the cache.
\<close>

fun build_pathway ::
  "tab_env \<Rightarrow> tab_fm \<Rightarrow> string \<Rightarrow> string list \<Rightarrow> string list \<Rightarrow> string list \<times> tab_fm" where
  "build_pathway e fm currentpath [] acc = (acc, fm)"
| "build_pathway e fm currentpath (d # ds) acc =
     (case get_directory e fm (path_join currentpath d) of
        (r, fm') \<Rightarrow> build_pathway e fm' (path_join currentpath d) ds (acc @ [r]))"

text \<open>
  \<^verbatim>\<open>assign_cursor_positions_for_subdirs\<close>: over the reversed pathway, every
  directory but the first met moves its cursor to the one met before it.
\<close>

fun assign_cursors :: "tab_env \<Rightarrow> tab_fm \<Rightarrow> string option \<Rightarrow> string list \<Rightarrow> tab_fm" where
  "assign_cursors e fm last_path [] = fm"
| "assign_cursors e fm None (p # ps) = assign_cursors e fm (Some p) ps"
| "assign_cursors e fm (Some l) (p # ps) =
     assign_cursors e (modify_directory fm p (\<lambda>d. move_to_obj e d l)) (Some p) ps"

definition assign_cursor_positions_for_subdirs :: "tab_env \<Rightarrow> tab_fm \<Rightarrow> tab \<Rightarrow> tab_fm" where
  "assign_cursor_positions_for_subdirs e fm t = assign_cursors e fm None (rev (pathway t))"

text \<open>
  \<^verbatim>\<open>enter_dir\<close> returns \<^verbatim>\<open>None\<close> for the path \<^verbatim>\<open>None\<close>, \<^verbatim>\<open>False\<close> when the resolved
  path is not a directory, and \<^verbatim>\<open>True\<close> otherwise. The \<^verbatim>\<open>except\<close> clause around
  \<^verbatim>\<open>os.chdir\<close> is \<^verbatim>\<open>return True\<close>: it leaves the method before any field of the tab
  is assigned.
\<close>

definition enter_dir ::
  "tab_env \<Rightarrow> tab_fm \<Rightarrow> tab \<Rightarrow> string option \<Rightarrow> bool \<Rightarrow> bool option \<times> tab_fm \<times> tab" where
  "enter_dir e fm t path_arg hist =
     (case path_arg of
        None \<Rightarrow> (None, fm, t)
      | Some p \<Rightarrow>
          (let previous = thisdir t;
               path = resolve e (tab_path t) p
           in if \<not> isdir e path then (Some False, fm, t)
              else
                (case get_directory e fm path of
                   (new_thisdir, fm1) \<Rightarrow>
                     if \<not> chdir_ok e path then (Some True, fm1, t)
                     else
                       (let t1 = t\<lparr>tab_path := path, thisdir := Some new_thisdir\<rparr>;
                            fm2 = modify_directory fm1 new_thisdir (load_content_if_outdated e);
                            (pw, fm3) = (if path = ''/''
                                         then (case get_directory e fm2 ''/'' of (r, f) \<Rightarrow> ([r], f))
                                         else build_pathway e fm2 ''/'' (split_slash path []) []);
                            t2 = t1\<lparr>pathway := pw\<rparr>;
                            fm4 = assign_cursor_positions_for_subdirs e fm3 t2;
                            fm5 = modify_directory fm4 new_thisdir
                                    (\<lambda>d. sort_if_outdated e
                                           (d\<lparr>sort_directories_first := setting_sort_directories_first e,
                                              sort_reverse := setting_sort_reverse e\<rparr>));
                            t3 = t2\<lparr>thisfile := (case directories fm5 new_thisdir of
                                                     Some d \<Rightarrow> pointed_obj e d | None \<Rightarrow> None)\<rparr>;
                            t4 = (if hist then t3\<lparr>tab_history := History_add (tab_history t3) new_thisdir\<rparr>
                                  else t3);
                            fm6 = fm5\<lparr>cd_events := cd_events fm5 @ [(previous, thisdir t4)]\<rparr>
                        in (Some True, fm6, t4)))))"

text \<open>Surroundings, a file manager and a tab for concrete evaluations.\<close>

definition plain_directory :: "string \<Rightarrow> directory" where
  "plain_directory p =
     \<lparr>dir_path = p, sort_directories_first = True, sort_reverse = False, dir_files = [],
      dir_pointer = 0\<rparr>"

definition tab_env_example :: "bool \<Rightarrow> tab_env" where
  "tab_env_example can_chdir =
     \<lparr>resolve = (\<lambda>cur p. p), isdir = (\<lambda>p. p \<in> set [''/'', ''/a'', ''/a/b'']),
      chdir_ok = (\<lambda>p. can_chdir), new_directory = plain_directory,
      load_content_if_outdated = (\<lambda>d. d), move_to_obj = (\<lambda>d l. d),
      sort_if_outdated = (\<lambda>d. d), pointed_obj = (\<lambda>d. None),
      setting_sort_directories_first = True, setting_sort_reverse = False\<rparr>"

definition tab_fm_init :: tab_fm where
  "tab_fm_init = \<lparr>directories = Map.empty, cd_events = []\<rparr>"

definition tab_at_root :: tab where
  "tab_at_root =
     \<lparr>tab_path = ''/'', thisdir = None, thisfile = None, pathway = [],
      tab_history = History_init None\<rparr>"

section \<open>Properties of History\<close>

subsection \<open>Claim C9\<close>

lemma History_top_nonempty: "history h \<noteq> [] \<Longrightarrow> History_top h = Inr (last (history h))"
  by (cases "history h") (simp_all add: History_top_def)

lemma History_top_empty: "history h = [] \<Longrightarrow> History_top h = Inl HistoryEmptyException"
  by (simp add: History_top_def)

text \<open>
  C9, as stated, fails for a History with zero entries: \<^verbatim>\<open>back()\<close> and
  \<^verbatim>\<open>forward()\<close> end in \<^verbatim>\<open>self.top()\<close>, which raises HistoryEmptyException
  instead of returning a current top element.
\<close>

theorem C9_counterexample:
  "fst (History_back (History_init None :: nat History)) = Inl HistoryEmptyException
   \<and> fst (History_forward (History_init None :: nat History)) = Inl HistoryEmptyException"
  by (simp add: History_back_def History_forward_def History_init_def History_top_def)

text \<open>
  C9, amended: on a History whose back stack is not empty, \<^verbatim>\<open>back()\<close> with exactly
  one entry on the back stack and \<^verbatim>\<open>forward()\<close> with an empty forward stack leave
  both stacks unchanged and return the current top element. On a History whose back
  stack is empty, \<^verbatim>\<open>back()\<close>, and \<^verbatim>\<open>forward()\<close> with an empty forward stack, leave
  both stacks unchanged and raise HistoryEmptyException.
\<close>

theorem C9_back_forward_noop:
  "(length (history h) = 1 \<longrightarrow> History_back h = (Inr (last (history h)), h))
   \<and> (history h \<noteq> [] \<and> history_forward h = [] \<longrightarrow> History_forward h = (Inr (last (history h)), h))
   \<and> (history h = [] \<longrightarrow> History_back h = (Inl HistoryEmptyException, h))
   \<and> (history h = [] \<and> history_forward h = [] \<longrightarrow> History_forward h = (Inl HistoryEmptyException, h))"
proof -
  have b1: "length (history h) = 1 \<Longrightarrow> History_back h = (Inr (last (history h)), h)"
  proof -
    assume l: "length (history h) = 1"
    then have "history h \<noteq> []" by auto
    then show ?thesis using l by (simp add: History_back_def History_top_nonempty)
  qed
  have f1: "history h \<noteq> [] \<Longrightarrow> history_forward h = [] \<Longrightarrow> History_forward h = (Inr (last (history h)), h)"
    by (simp add: History_forward_def History_top_nonempty)
  have b0: "history h = [] \<Longrightarrow> History_back h = (Inl HistoryEmptyException, h)"
    by (simp add: History_back_def History_top_empty)
  have f0: "history h = [] \<Longrightarrow> history_forward h = [] \<Longrightarrow> History_forward h = (Inl HistoryEmptyException, h)"
    by (simp add: History_forward_def History_top_empty)
  from b1 f1 b0 f0 show ?thesis by blast
qed

theorem C9_back_forward_noop_witness:
  "History_back \<lparr>maxlen = None, history = [7::nat], history_forward = [9]\<rparr>
     = (Inr 7, \<lparr>maxlen = None, history = [7], history_forward = [9]\<rparr>)
   \<and> History_forward \<lparr>maxlen = None, history = [7::nat], history_forward = []\<rparr>
     = (Inr 7, \<lparr>maxlen = None, history = [7], history_forward = []\<rparr>)
   \<and> History_back \<lparr>maxlen = None, history = [] :: nat list, history_forward = []\<rparr>
     = (Inl HistoryEmptyException, \<lparr>maxlen = None, history = [], history_forward = []\<rparr>)
   \<and> History_forward \<lparr>maxlen = None, history = [] :: nat list, history_forward = []\<rparr>
     = (Inl HistoryEmptyException, \<lparr>maxlen = None, history = [], history_forward = []\<rparr>)"
  using C9_back_forward_noop [of "\<lparr>maxlen = None, history = [7::nat], history_forward = [9]\<rparr>"]
        C9_back_forward_noop [of "\<lparr>maxlen = None, history = [7::nat], history_forward = []\<rparr>"]
        C9_back_forward_noop [of "\<lparr>maxlen = None, history = [] :: nat list, history_forward = []\<rparr>"]
  by simp

subsection \<open>Claim C6\<close>

text \<open>
  C6: the class History of history.py has no \<^verbatim>\<open>rebase\<close>. The lookup that
  \<^verbatim>\<open>Tab.inherit_history\<close> starts with raises AttributeError, and the tab's History is
  left as it was: nothing is concatenated and the forward stack is not reset.
\<close>

theorem C6_inherit_history_raises:
  "inherit_history \<lparr>maxlen = None, history = [1::nat, 2], history_forward = [3]\<rparr>
                   \<lparr>maxlen = None, history = [5, 6], history_forward = []\<rparr>
     = (Inl (AttributeError ''rebase''), \<lparr>maxlen = None, history = [1, 2], history_forward = [3]\<rparr>)"
  by (simp add: inherit_history_def History_getattr_def History_attributes_def)

section \<open>Properties of the command container and the line helpers\<close>

subsection \<open>Claim C2\<close>

lemma matching_member:
  "(cmd, cls) \<in> set cmds \<Longrightarrow> (allow_abbrev cls \<and> prefix name cmd) \<or> cmd = name
   \<Longrightarrow> cls \<in> set (matching cmds name)"
  by (force simp: matching_def)

lemma matching_exact: "map_of cmds name = Some cls \<Longrightarrow> cls \<in> set (matching cmds name)"
  by (rule matching_member [of name]) (auto dest: map_of_SomeD)

text \<open>
  The last statement of the abbreviation branch, \<^verbatim>\<open>raise ValueError("Ambiguous command")\<close>,
  is never reached: whenever \<^verbatim>\<open>self.commands[name]\<close> exists it is among the matches.
\<close>

lemma get_command_never_ValueError: "get_command c name abbrev \<noteq> Inl (ValueError s)"
  by (auto simp: get_command_def Let_def matching_exact split: option.splits)

text \<open>
  C2: with exactly \<^verbatim>\<open>edit\<close> and \<^verbatim>\<open>exit\<close> registered, both allowing
  abbreviation, \<^verbatim>\<open>get_command("e", True)\<close> finds two matches and then subscripts
  \<^verbatim>\<open>self.commands["e"]\<close>: it raises KeyError, the error of the no-match case, and
  not the ValueError ("Ambiguous command") that the last line of the branch is there to raise.
\<close>

theorem C2_ambiguous_prefix_raises_KeyError:
  "get_command
     (register (register CommandContainer_init
        \<lparr>cls_ident = ''edit'', cls_name = None, allow_abbrev = True\<rparr>)
        \<lparr>cls_ident = ''exit'', cls_name = None, allow_abbrev = True\<rparr>)
     ''e'' True = Inl KeyError"
  by (simp add: get_command_def register_def CommandContainer_init_def matching_def)

subsection \<open>Claim C5\<close>

text \<open>
  C5: for the raw line \<^verbatim>\<open>open file name\<close> with no shift, under either interpreter, \<^verbatim>\<open>rest(1)\<close> is
  \<^verbatim>\<open>file name\<close> and \<^verbatim>\<open>arg(5)\<close> is the empty string, but \<^verbatim>\<open>rest(0)\<close> is the
  empty string and not the whole line: the loop starts with \<^verbatim>\<open>got_space = False\<close>,
  so it can return only at a word that follows a space, where the count is at least 1.
\<close>

theorem C5_rest_zero_is_empty:
  "rest (setargs v ''open file name'' None) 0 = ''''
   \<and> rest (setargs v ''open file name'' None) 1 = ''file name''
   \<and> arg (setargs v ''open file name'' None) 5 = ''''"
  by (simp add: rest_def setargs_def arg_def py_isspace_def)

subsection \<open>Claim C10\<close>

lemma alias_cmd_commands:
  "map_of (commands c) old = Some cls \<Longrightarrow>
   commands (alias_cmd c new old) = AList.update new cls (commands c)"
  by (simp add: alias_cmd_def)

lemma get_command_exact_abbrev:
  assumes "map_of (commands c) name = Some cls"
  shows "get_command c name True = Inr (Some cls)"
proof -
  let ?lst = "matching (commands c) name"
  have mem: "cls \<in> set ?lst" using assms by (rule matching_exact)
  then have ne: "length ?lst \<noteq> 0" by auto
  show ?thesis
  proof (cases "length ?lst = 1")
    case True
    then obtain x where single: "?lst = [x]" by (cases ?lst) auto
    with mem have "x = cls" by simp
    with single show ?thesis by (simp add: get_command_def Let_def)
  next
    case False
    with ne mem assms show ?thesis by (simp add: get_command_def Let_def)
  qed
qed

lemma update_single_match:
  "distinct (map fst xs) \<Longrightarrow> P (k, v) \<Longrightarrow> (\<forall>(k', v')\<in>set xs. k' \<noteq> k \<longrightarrow> \<not> P (k', v')) \<Longrightarrow>
   filter P (AList.update k v xs) = [(k, v)]"
proof (induction xs)
  case Nil
  then show ?case by simp
next
  case (Cons x xs)
  obtain a b where x: "x = (a, b)" by (cases x)
  show ?case
  proof (cases "a = k")
    case True
    have "\<forall>y\<in>set xs. \<not> P y"
    proof
      fix y assume y: "y \<in> set xs"
      obtain a' b' where y': "y = (a', b')" by (cases y)
      from Cons.prems(1) x True y y' have "a' \<noteq> k" by force
      with Cons.prems(3) y y' show "\<not> P y" by auto
    qed
    then have "filter P xs = []" by (simp add: filter_empty_conv)
    with x True Cons.prems(2) show ?thesis by simp
  next
    case False
    with Cons.prems(3) x have "\<not> P (a, b)" by auto
    moreover have "filter P (AList.update k v xs) = [(k, v)]"
      using Cons.IH Cons.prems by auto
    ultimately show ?thesis using x False by simp
  qed
qed

lemma update_keeps_other:
  "(k', v') \<in> set xs \<Longrightarrow> k' \<noteq> k \<Longrightarrow> (k', v') \<in> set (AList.update k v xs)"
  by (induction xs) auto

lemma two_matches:
  assumes "x \<in> set ys" and "y \<in> set ys" and "x \<noteq> y" and "P x" and "P y"
  shows "2 \<le> length (filter P ys)"
proof -
  have "{x, y} \<subseteq> set (filter P ys)" using assms by simp
  then have "card {x, y} \<le> card (set (filter P ys))" by (simp add: card_mono)
  also have "\<dots> \<le> length (filter P ys)" by (rule card_length)
  finally show ?thesis using assms(3) by simp
qed

text \<open>
  After \<^verbatim>\<open>alias(new, old)\<close>, a prefix of \<^verbatim>\<open>new\<close> that no other registered name
  matches resolves to the class of \<^verbatim>\<open>old\<close>.
\<close>

lemma get_command_alias_prefix:
  assumes old: "map_of (commands c) old = Some cls"
    and dist: "distinct (map fst (commands c))"
    and ab: "allow_abbrev cls" and pre: "prefix name new"
    and others: "\<forall>(k, c')\<in>set (commands c). k \<noteq> new \<longrightarrow> \<not> ((allow_abbrev c' \<and> prefix name k) \<or> k = name)"
  shows "get_command (alias_cmd c new old) name True = Inr (Some cls)"
proof -
  let ?P = "\<lambda>(cmd, cl). (allow_abbrev cl \<and> prefix name cmd) \<or> cmd = name"
  have cm: "commands (alias_cmd c new old) = AList.update new cls (commands c)"
    using old by (rule alias_cmd_commands)
  have p: "?P (new, cls)" using ab pre by simp
  have o: "\<forall>(k', v')\<in>set (commands c). k' \<noteq> new \<longrightarrow> \<not> ?P (k', v')"
    using others by auto
  have "filter ?P (AList.update new cls (commands c)) = [(new, cls)]"
    using dist p o by (rule update_single_match)
  then have "matching (commands (alias_cmd c new old)) name = [cls]"
    by (simp add: matching_def cm)
  then show ?thesis by (simp add: get_command_def Let_def)
qed

text \<open>
  After \<^verbatim>\<open>alias(new, old)\<close>, a prefix of \<^verbatim>\<open>new\<close> that is no registered name and
  that another registered name matches as well has two matches: the lookup fails, with
  the KeyError of the subscript \<^verbatim>\<open>self.commands[name]\<close>.
\<close>

lemma get_command_alias_ambiguous:
  assumes old: "map_of (commands c) old = Some cls"
    and ab: "allow_abbrev cls" and pre: "prefix name new"
    and nokey: "name \<notin> fst ` set (commands c)" and nn: "name \<noteq> new"
    and other: "(k, c') \<in> set (commands c)" and kn: "k \<noteq> new"
    and kab: "allow_abbrev c'" and kpre: "prefix name k"
  shows "get_command (alias_cmd c new old) name True = Inl KeyError"
proof -
  let ?P = "\<lambda>(cmd, cl). (allow_abbrev cl \<and> prefix name cmd) \<or> cmd = name"
  let ?cmds = "AList.update new cls (commands c)"
  have cm: "commands (alias_cmd c new old) = ?cmds"
    using old by (rule alias_cmd_commands)
  have "map_of ?cmds new = Some cls" by (simp add: update_conv')
  then have m1: "(new, cls) \<in> set ?cmds" by (rule map_of_SomeD)
  have m2: "(k, c') \<in> set ?cmds" using other kn by (rule update_keeps_other)
  have ne: "(new, cls) \<noteq> (k, c')" using kn by simp
  have p1: "?P (new, cls)" using ab pre by simp
  have p2: "?P (k, c')" using kab kpre by simp
  have "2 \<le> length (filter ?P ?cmds)"
    using m1 m2 ne p1 p2 by (rule two_matches)
  then have len: "2 \<le> length (matching (commands (alias_cmd c new old)) name)"
    by (simp add: matching_def cm)
  have "map_of (commands c) name = None"
    using nokey by (simp add: map_of_eq_None_iff)
  then have none: "map_of (commands (alias_cmd c new old)) name = None"
    using nn by (simp add: cm update_conv')
  from len none show ?thesis by (simp add: get_command_def Let_def)
qed

text \<open>
  C10: \<^verbatim>\<open>alias(new, old)\<close> with \<^verbatim>\<open>old\<close> a registered name binds \<^verbatim>\<open>new\<close> in the
  commands dictionary to the class of \<^verbatim>\<open>old\<close> and records \<^verbatim>\<open>new\<close> in the aliases
  dictionary. Then the exact lookup of \<^verbatim>\<open>new\<close> returns that class; the lookup of
  \<^verbatim>\<open>new\<close> with abbreviation returns that class whatever else matches (the exact name
  wins); \<^verbatim>\<open>new\<close> is among the matches of each of its prefixes when the class allows
  abbreviation; the lookup with abbreviation of a prefix of \<^verbatim>\<open>new\<close> that no other
  registered name matches returns that class; and the lookup of a prefix of \<^verbatim>\<open>new\<close>
  that is no registered name and that another registered name matches too finds two
  matches and fails. With \<^verbatim>\<open>old\<close> not registered, the container is unchanged.
\<close>

theorem C10_alias:
  "(map_of (commands c) old = Some cls \<longrightarrow>
      commands (alias_cmd c new old) = AList.update new cls (commands c)
      \<and> aliases (alias_cmd c new old) = AList.update new old (aliases c)
      \<and> map_of (commands (alias_cmd c new old)) new = Some cls
      \<and> get_command (alias_cmd c new old) new False = Inr (Some cls)
      \<and> get_command (alias_cmd c new old) new True = Inr (Some cls)
      \<and> (\<forall>name. (allow_abbrev cls \<and> prefix name new) \<or> name = new \<longrightarrow>
             cls \<in> set (matching (commands (alias_cmd c new old)) name))
      \<and> (\<forall>name. distinct (map fst (commands c)) \<and> allow_abbrev cls \<and> prefix name new
             \<and> (\<forall>(k, c')\<in>set (commands c).
                    k \<noteq> new \<longrightarrow> \<not> ((allow_abbrev c' \<and> prefix name k) \<or> k = name))
             \<longrightarrow> get_command (alias_cmd c new old) name True = Inr (Some cls))
      \<and> (\<forall>name k c'. allow_abbrev cls \<and> prefix name new
             \<and> name \<notin> fst ` set (commands c) \<and> name \<noteq> new
             \<and> (k, c') \<in> set (commands c) \<and> k \<noteq> new \<and> allow_abbrev c' \<and> prefix name k
             \<longrightarrow> get_command (alias_cmd c new old) name True = Inl KeyError))
   \<and> (map_of (commands c) old = None \<longrightarrow> alias_cmd c new old = c)"
proof -
  have unreg: "map_of (commands c) old = None \<Longrightarrow> alias_cmd c new old = c"
    by (simp add: alias_cmd_def)
  have reg: "commands (alias_cmd c new old) = AList.update new cls (commands c)
      \<and> aliases (alias_cmd c new old) = AList.update new old (aliases c)
      \<and> map_of (commands (alias_cmd c new old)) new = Some cls
      \<and> get_command (alias_cmd c new old) new False = Inr (Some cls)
      \<and> get_command (alias_cmd c new old) new True = Inr (Some cls)
      \<and> (\<forall>name. (allow_abbrev cls \<and> prefix name new) \<or> name = new \<longrightarrow>
             cls \<in> set (matching (commands (alias_cmd c new old)) name))
      \<and> (\<forall>name. distinct (map fst (commands c)) \<and> allow_abbrev cls \<and> prefix name new
             \<and> (\<forall>(k, c')\<in>set (commands c).
                    k \<noteq> new \<longrightarrow> \<not> ((allow_abbrev c' \<and> prefix name k) \<or> k = name))
             \<longrightarrow> get_command (alias_cmd c new old) name True = Inr (Some cls))
      \<and> (\<forall>name k c'. allow_abbrev cls \<and> prefix name new
             \<and> name \<notin> fst ` set (commands c) \<and> name \<noteq> new
             \<and> (k, c') \<in> set (commands c) \<and> k \<noteq> new \<and> allow_abbrev c' \<and> prefix name k
             \<longrightarrow> get_command (alias_cmd c new old) name True = Inl KeyError)"
    if old: "map_of (commands c) old = Some cls"
  proof -
    have cm: "commands (alias_cmd c new old) = AList.update new cls (commands c)"
      using old by (rule alias_cmd_commands)
    have al: "aliases (alias_cmd c new old) = AList.update new old (aliases c)"
      using old by (simp add: alias_cmd_def)
    have lk: "map_of (commands (alias_cmd c new old)) new = Some cls"
      by (simp add: cm update_conv')
    have ex: "get_command (alias_cmd c new old) new False = Inr (Some cls)"
      using lk by (simp add: get_command_def)
    have ab: "get_command (alias_cmd c new old) new True = Inr (Some cls)"
      using lk by (rule get_command_exact_abbrev)
    have inlist: "(new, cls) \<in> set (commands (alias_cmd c new old))"
      using lk by (rule map_of_SomeD)
    have pm: "cls \<in> set (matching (commands (alias_cmd c new old)) name)"
      if "(allow_abbrev cls \<and> prefix name new) \<or> name = new" for name
      using matching_member [OF inlist, of name] that by auto
    have pre: "get_command (alias_cmd c new old) name True = Inr (Some cls)"
      if "distinct (map fst (commands c)) \<and> allow_abbrev cls \<and> prefix name new
          \<and> (\<forall>(k, c')\<in>set (commands c).
                 k \<noteq> new \<longrightarrow> \<not> ((allow_abbrev c' \<and> prefix name k) \<or> k = name))" for name
      using get_command_alias_prefix [OF old, of name new] that by blast
    have amb: "get_command (alias_cmd c new old) name True = Inl KeyError"
      if "allow_abbrev cls \<and> prefix name new
          \<and> name \<notin> fst ` set (commands c) \<and> name \<noteq> new
          \<and> (k, c') \<in> set (commands c) \<and> k \<noteq> new \<and> allow_abbrev c' \<and> prefix name k" for name k c'
      using get_command_alias_ambiguous [OF old, of name new k c'] that by blast
    from cm al lk ex ab pm pre amb show ?thesis by blast
  qed
  from unreg reg show ?thesis by blast
qed

theorem C10_alias_witness:
  "commands (alias_cmd (register CommandContainer_init edit_cls) ''ed'' ''edit'')
     = [(''edit'', edit_cls), (''ed'', edit_cls)]
   \<and> aliases (alias_cmd (register CommandContainer_init edit_cls) ''ed'' ''edit'') = [(''ed'', ''edit'')]
   \<and> get_command (alias_cmd (register CommandContainer_init edit_cls) ''ed'' ''edit'') ''ed'' False
       = Inr (Some edit_cls)
   \<and> get_command (alias_cmd (register CommandContainer_init edit_cls) ''ed'' ''edit'') ''ed'' True
       = Inr (Some edit_cls)
   \<and> edit_cls \<in> set (matching (commands (alias_cmd (register CommandContainer_init edit_cls) ''ed'' ''edit'')) ''e'')
   \<and> get_command (alias_cmd (register CommandContainer_init edit_cls) ''xx'' ''edit'') ''x'' True
       = Inr (Some edit_cls)
   \<and> get_command (alias_cmd (register CommandContainer_init edit_cls) ''ed'' ''edit'') ''e'' True
       = Inl KeyError
   \<and> alias_cmd (register CommandContainer_init edit_cls) ''ed'' ''exit''
       = register CommandContainer_init edit_cls"
proof -
  let ?c = "register CommandContainer_init edit_cls"
  have cm: "commands ?c = [(''edit'', edit_cls)]"
    by (simp add: register_def CommandContainer_init_def edit_cls_def)
  have al: "aliases ?c = []"
    by (simp add: register_def CommandContainer_init_def edit_cls_def)
  have reg: "map_of (commands ?c) ''edit'' = Some edit_cls" by (simp add: cm)
  have unreg: "map_of (commands ?c) ''exit'' = None" by (simp add: cm)
  have ab: "allow_abbrev edit_cls" by (simp add: edit_cls_def)
  note t = C10_alias [of ?c "''edit''" edit_cls "''ed''"]
  note u = C10_alias [of ?c "''edit''" edit_cls "''xx''"]
  note w = C10_alias [of ?c "''exit''" edit_cls "''ed''"]
  from t reg have t1: "commands (alias_cmd ?c ''ed'' ''edit'') = AList.update ''ed'' edit_cls (commands ?c)"
    and t2: "aliases (alias_cmd ?c ''ed'' ''edit'') = AList.update ''ed'' ''edit'' (aliases ?c)"
    and t3: "get_command (alias_cmd ?c ''ed'' ''edit'') ''ed'' False = Inr (Some edit_cls)"
    and t4: "get_command (alias_cmd ?c ''ed'' ''edit'') ''ed'' True = Inr (Some edit_cls)"
    by blast+
  have pe: "allow_abbrev edit_cls \<and> prefix ''e'' ''ed''" using ab by simp
  from t reg pe have t5: "edit_cls \<in> set (matching (commands (alias_cmd ?c ''ed'' ''edit'')) ''e'')"
    by blast
  have hx: "distinct (map fst (commands ?c)) \<and> allow_abbrev edit_cls \<and> prefix ''x'' ''xx''
      \<and> (\<forall>(k, c')\<in>set (commands ?c).
             k \<noteq> ''xx'' \<longrightarrow> \<not> ((allow_abbrev c' \<and> prefix ''x'' k) \<or> k = ''x''))"
    using ab by (simp add: cm)
  from u reg hx have u1: "get_command (alias_cmd ?c ''xx'' ''edit'') ''x'' True = Inr (Some edit_cls)"
    by blast
  have ha: "allow_abbrev edit_cls \<and> prefix ''e'' ''ed''
      \<and> ''e'' \<notin> fst ` set (commands ?c) \<and> ''e'' \<noteq> ''ed''
      \<and> (''edit'', edit_cls) \<in> set (commands ?c) \<and> ''edit'' \<noteq> ''ed''
      \<and> allow_abbrev edit_cls \<and> prefix ''e'' ''edit''"
    using ab by (simp add: cm)
  from t reg ha have t6: "get_command (alias_cmd ?c ''ed'' ''edit'') ''e'' True = Inl KeyError"
    by blast
  from w unreg have w1: "alias_cmd ?c ''ed'' ''exit'' = ?c" by blast
  have t1': "commands (alias_cmd ?c ''ed'' ''edit'') = [(''edit'', edit_cls), (''ed'', edit_cls)]"
    using t1 by (simp add: cm)
  have t2': "aliases (alias_cmd ?c ''ed'' ''edit'') = [(''ed'', ''edit'')]"
    using t2 by (simp add: al)
  from t1' t2' t3 t4 t5 u1 t6 w1 show ?thesis by blast
qed

section \<open>Properties of the signal dispatcher\<close>

subsection \<open>The handler lists stay ordered\<close>

lemma insort_called_before:
  "sorted_wrt called_before ys \<Longrightarrow>
   (\<forall>y\<in>set ys. priority y = priority x \<longrightarrow> hid x < hid y) \<Longrightarrow>
   sorted_wrt called_before (insort_key (\<lambda>h. - priority h) x ys)"
proof (induction ys)
  case Nil
  then show ?case by simp
next
  case (Cons y ys)
  show ?case
  proof (cases "priority y \<le> priority x")
    case True
    have "called_before x z" if "z \<in> set (y # ys)" for z
    proof -
      have "priority z \<le> priority y"
        using that Cons.prems(1) by (auto simp: called_before_def)
      with True have "priority z \<le> priority x" by simp
      moreover have "priority z = priority x \<longrightarrow> hid x < hid z"
        using that Cons.prems(2) by auto
      ultimately show ?thesis by (auto simp: called_before_def)
    qed
    with True Cons.prems(1) show ?thesis by simp
  next
    case False
    then have yx: "called_before y x" by (simp add: called_before_def)
    have "sorted_wrt called_before (insort_key (\<lambda>h. - priority h) x ys)"
      using Cons.IH Cons.prems by simp
    with False yx Cons.prems(1) show ?thesis by (auto simp: set_insort_key)
  qed
qed

lemma sort_append_called_before:
  "sorted_wrt called_before xs \<Longrightarrow> (\<forall>x\<in>set xs. hid x < hid h) \<Longrightarrow>
   sorted_wrt called_before (sort_key (\<lambda>x. - priority x) (xs @ [h]))"
proof (induction xs)
  case Nil
  then show ?case by simp
next
  case (Cons x xs)
  have rest: "sorted_wrt called_before (sort_key (\<lambda>x. - priority x) (xs @ [h]))"
    using Cons by simp
  have "\<forall>y\<in>set (sort_key (\<lambda>x. - priority x) (xs @ [h])). priority y = priority x \<longrightarrow> hid x < hid y"
    using Cons.prems by (auto simp: called_before_def)
  with rest show ?case by (simp add: insort_called_before)
qed

lemma set_remove_handler: "set (remove_handler i hs) \<subseteq> set hs"
  by (induction hs) auto

lemma remove_handler_called_before:
  "sorted_wrt called_before hs \<Longrightarrow> sorted_wrt called_before (remove_handler i hs)"
proof (induction hs)
  case Nil
  then show ?case by simp
next
  case (Cons h hs)
  then show ?case using set_remove_handler [of i hs] by auto
qed

lemma set_active_called_before:
  "sorted_wrt called_before hs \<Longrightarrow>
   sorted_wrt called_before (map (\<lambda>h. if hid h = i then h\<lparr>active := b\<rparr> else h) hs)"
  by (induction hs) (auto simp: called_before_def)

subsection \<open>The calls of one emission follow the snapshot\<close>

lemma propagate_trace:
  "sorted_wrt called_before (tr @ snapshot) \<Longrightarrow>
   sorted_wrt called_before (snd (snd (propagate expired call snapshot live tr)))"
proof (induction snapshot arbitrary: live tr)
  case Nil
  then show ?case by simp
next
  case (Cons h snapshot)
  have skip: "sorted_wrt called_before (tr @ snapshot)"
    using Cons.prems by (auto simp: sorted_wrt_append)
  have take1: "sorted_wrt called_before ((tr @ [h]) @ snapshot)"
    using Cons.prems by simp
  have here: "sorted_wrt called_before (tr @ [h])"
    using Cons.prems by (auto simp: sorted_wrt_append)
  have before: "sorted_wrt called_before tr"
    using Cons.prems by (auto simp: sorted_wrt_append)
  show ?case
  proof (cases "active h")
    case False
    then show ?thesis using Cons.IH [OF skip] by simp
  next
    case True
    show ?thesis
    proof (cases "proxy_expired expired h")
      case True
      with \<open>active h\<close> before show ?thesis by simp
    next
      case False
      show ?thesis
      proof (cases "raised (call h)")
        case None
        with True False here Cons.IH [OF take1] show ?thesis by simp
      next
        case (Some e)
        with True False here Cons.IH [OF take1] show ?thesis by (cases e) simp_all
      qed
    qed
  qed
qed

lemma propagate_live:
  "sorted_wrt called_before live \<Longrightarrow>
   sorted_wrt called_before (fst (snd (propagate expired call snapshot live tr)))
   \<and> set (fst (snd (propagate expired call snapshot live tr))) \<subseteq> set live"
proof (induction snapshot arbitrary: live tr)
  case Nil
  then show ?case by simp
next
  case (Cons h snapshot)
  let ?live' = "remove_handler (hid h) live"
  have s': "sorted_wrt called_before ?live'"
    using Cons.prems by (rule remove_handler_called_before)
  have sub: "set ?live' \<subseteq> set live" by (rule set_remove_handler)
  have keep: "sorted_wrt called_before (fst (snd (propagate expired call snapshot live t)))
      \<and> set (fst (snd (propagate expired call snapshot live t))) \<subseteq> set live" for t
    using Cons.IH [OF Cons.prems] .
  have drop1: "sorted_wrt called_before (fst (snd (propagate expired call snapshot ?live' t)))
      \<and> set (fst (snd (propagate expired call snapshot ?live' t))) \<subseteq> set live" for t
    using Cons.IH [OF s', of t] sub by blast
  show ?case
  proof (cases "active h")
    case False
    then show ?thesis using keep by simp
  next
    case True
    show ?thesis
    proof (cases "proxy_expired expired h")
      case True
      with \<open>active h\<close> Cons.prems show ?thesis by simp
    next
      case False
      show ?thesis
      proof (cases "raised (call h)")
        case None
        with True False Cons.prems keep show ?thesis by simp
      next
        case (Some e)
        with True False Cons.prems keep drop1 s' sub show ?thesis by (cases e) simp_all
      qed
    qed
  qed
qed

subsection \<open>The invariant of a dispatcher\<close>

lemma ordered_init: "ordered_dispatcher SignalDispatcher_init"
  by (simp add: ordered_dispatcher_def SignalDispatcher_init_def)

lemma ordered_bind:
  assumes "ordered_dispatcher d"
  shows "ordered_dispatcher (snd (signal_bind d name f p weak))"
proof -
  define hs where "hs = (case signals d name of Some hs \<Rightarrow> hs | None \<Rightarrow> [])"
  have "sorted_wrt called_before hs \<and> (\<forall>h\<in>set hs. hid h < next_hid d)"
  proof (cases "signals d name")
    case None
    then show ?thesis by (simp add: hs_def)
  next
    case (Some xs)
    with assms show ?thesis by (simp add: hs_def ordered_dispatcher_def)
  qed
  then have hs_sorted: "sorted_wrt called_before hs" and hs_old: "\<forall>h\<in>set hs. hid h < next_hid d"
    by simp_all
  define h where "h = fst (signal_bind d name f p weak)"
  have h: "hid h = next_hid d"
    by (simp add: h_def signal_bind_def Let_def SignalHandler_init_def)
  have bind: "snd (signal_bind d name f p weak)
      = d\<lparr>signals := (signals d)(name \<mapsto> sort_key (\<lambda>x. - priority x) (hs @ [h])),
           next_hid := next_hid d + 1\<rparr>"
    by (simp add: h_def signal_bind_def Let_def hs_def)
  have new_sorted: "sorted_wrt called_before (sort_key (\<lambda>x. - priority x) (hs @ [h]))"
    using hs_sorted hs_old h by (simp add: sort_append_called_before)
  have new_ids: "\<forall>x\<in>set (sort_key (\<lambda>x. - priority x) (hs @ [h])). hid x < next_hid d + 1"
    using hs_old h by auto
  show ?thesis
    unfolding bind ordered_dispatcher_def
    using assms new_sorted new_ids
    by (auto simp: ordered_dispatcher_def less_Suc_eq dest!: spec)
qed

lemma ordered_unbind: "ordered_dispatcher d \<Longrightarrow> ordered_dispatcher (signal_unbind d h)"
  unfolding ordered_dispatcher_def signal_unbind_def
  using set_remove_handler remove_handler_called_before
  by (auto split: option.splits) blast+

lemma ordered_set_active: "ordered_dispatcher d \<Longrightarrow> ordered_dispatcher (set_active d i b)"
  unfolding ordered_dispatcher_def set_active_def
  by (auto simp: set_active_called_before)

lemma ordered_collect:
  "ordered_dispatcher d \<Longrightarrow> ordered_dispatcher (signal_garbage_collect d expired)"
  unfolding ordered_dispatcher_def signal_garbage_collect_def
  by (auto simp: sorted_wrt_filter)

lemma ordered_clear: "ordered_dispatcher d \<Longrightarrow> ordered_dispatcher (signal_clear d)"
  by (simp add: ordered_dispatcher_def signal_clear_def)

lemma ordered_emit:
  assumes "ordered_dispatcher d"
  shows "ordered_dispatcher (fst (snd (signal_emit d expired call name)))"
proof (cases "signals d name")
  case None
  with assms show ?thesis by (simp add: signal_emit_def)
next
  case (Some hs)
  have hs: "sorted_wrt called_before hs" and ids: "\<forall>h\<in>set hs. hid h < next_hid d"
    using assms Some by (auto simp: ordered_dispatcher_def)
  obtain r live tr where p: "propagate expired call hs hs [] = (r, live, tr)"
    by (cases "propagate expired call hs hs []") auto
  have "sorted_wrt called_before live \<and> set live \<subseteq> set hs"
    using propagate_live [OF hs, of expired call hs "[]"] p by simp
  with ids have "sorted_wrt called_before live \<and> (\<forall>h\<in>set live. hid h < next_hid d)"
    by blast
  with assms Some p show ?thesis
    by (auto simp: signal_emit_def ordered_dispatcher_def)
qed

lemma ordered_step: "ordered_dispatcher d \<Longrightarrow> ordered_dispatcher (dispatcher_step d x)"
  by (cases x)
     (simp_all add: ordered_bind ordered_unbind ordered_set_active ordered_collect
        ordered_emit ordered_clear)

lemma ordered_foldl:
  "ordered_dispatcher d \<Longrightarrow> ordered_dispatcher (foldl dispatcher_step d ops)"
  by (induction ops arbitrary: d) (simp_all add: ordered_step)

lemma ordered_run: "ordered_dispatcher (run_dispatcher ops)"
  by (simp add: run_dispatcher_def ordered_foldl ordered_init)

lemma emit_trace_ordered:
  assumes "ordered_dispatcher d"
  shows "sorted_wrt called_before (snd (snd (signal_emit d expired call name)))"
proof (cases "signals d name")
  case None
  then show ?thesis by (simp add: signal_emit_def)
next
  case (Some hs)
  have "sorted_wrt called_before ([] @ hs)"
    using assms Some by (auto simp: ordered_dispatcher_def)
  then have "sorted_wrt called_before (snd (snd (propagate expired call hs hs [])))"
    by (rule propagate_trace)
  with Some show ?thesis
    by (auto simp: signal_emit_def split: prod.splits)
qed

subsection \<open>Claim C7\<close>

text \<open>
  An expired weak proxy of a plain function is not called and not removed: the
  ReferenceError leaves \<^verbatim>\<open>signal_emit\<close>, and the handlers after it are not called.
\<close>

lemma emit_expired_proxy_raises:
  "signal_emit
     (run_dispatcher [Bind ''cd'' (plain_fn 0) (9/10) True, Bind ''cd'' (plain_fn 1) (1/10) False])
     (\<lambda>h. True) returns_normally ''cd''
   = (Inl ReferenceError,
      run_dispatcher [Bind ''cd'' (plain_fn 0) (9/10) True, Bind ''cd'' (plain_fn 1) (1/10) False],
      [])"
  by (simp add: run_dispatcher_def signal_bind_def signal_emit_def Let_def
      SignalDispatcher_init_def SignalHandler_init_def plain_fn_def proxy_expired_def)

text \<open>
  C7, as stated, fails for priorities outside the interval from 0 to 1: a handler bound
  with priority 1 and then a handler bound with priority 3/2 both get the priority 1,
  and the emission calls the first before the second, although the second was bound
  with the strictly higher priority.
\<close>

theorem C7_counterexample:
  "map (\<lambda>h. (hid h, priority h))
     (snd (snd (signal_emit (run_dispatcher two_binds_above_one) nothing_expired returns_normally ''cd'')))
   = [(0, 1), (1, 1)]"
  by (simp add: two_binds_above_one_def run_dispatcher_def signal_bind_def signal_emit_def Let_def
      SignalDispatcher_init_def SignalHandler_init_def plain_fn_def returns_normally_def
      proxy_expired_def nothing_expired_def)

text \<open>
  C7, amended: the priority of a handler is the priority it was bound with, clamped
  into the interval from 0 to 1 by \<^verbatim>\<open>SignalHandler.__init__\<close>. After any run of
  binds, unbinds, emissions, garbage collections, clears and changes of \<^verbatim>\<open>active\<close>,
  the handlers that an emission of any signal name calls are called in the order
  \<open>called_before\<close>: of two handlers called, the one with the strictly higher clamped
  priority is called first, whatever the order of their binds, and of two with the same
  clamped priority the one bound first is called first (\<open>hid\<close> numbers the handlers in
  the order of their binds).
\<close>

theorem C7_emit_order:
  "sorted_wrt called_before (snd (snd (signal_emit (run_dispatcher ops) expired call name)))
   \<and> priority (fst (signal_bind d name f p weak)) = max 0 (min 1 p)
   \<and> hid (fst (signal_bind d name f p weak)) = next_hid d
   \<and> next_hid (snd (signal_bind d name f p weak)) = next_hid d + 1"
proof -
  have "sorted_wrt called_before (snd (snd (signal_emit (run_dispatcher ops) expired call name)))"
    using ordered_run by (rule emit_trace_ordered)
  moreover have "priority (fst (signal_bind d name f p weak)) = max 0 (min 1 p)"
    by (simp add: signal_bind_def Let_def SignalHandler_init_def)
  moreover have "hid (fst (signal_bind d name f p weak)) = next_hid d"
    by (simp add: signal_bind_def Let_def SignalHandler_init_def)
  moreover have "next_hid (snd (signal_bind d name f p weak)) = next_hid d + 1"
    by (simp add: signal_bind_def Let_def)
  ultimately show ?thesis by simp
qed

theorem C7_emit_order_witness:
  "sorted_wrt called_before (snd (snd (signal_emit (run_dispatcher three_binds) nothing_expired returns_normally ''cd'')))
   \<and> map hid (snd (snd (signal_emit (run_dispatcher three_binds) nothing_expired returns_normally ''cd''))) = [1, 2, 0]"
proof -
  have a: "sorted_wrt called_before
      (snd (snd (signal_emit (run_dispatcher three_binds) nothing_expired returns_normally ''cd'')))"
    using C7_emit_order [of three_binds nothing_expired returns_normally "''cd''"] by (rule conjunct1)
  have b: "map hid (snd (snd (signal_emit (run_dispatcher three_binds) nothing_expired returns_normally ''cd''))) = [1, 2, 0]"
    by (simp add: three_binds_def run_dispatcher_def signal_bind_def signal_emit_def Let_def
        SignalDispatcher_init_def SignalHandler_init_def plain_fn_def returns_normally_def
        proxy_expired_def nothing_expired_def)
  from a b show ?thesis by (rule conjI)
qed

section \<open>Properties of the preview cache\<close>

subsection \<open>Claim C1\<close>

lemma get_preview_entry:
  "script_enabled e \<Longrightarrow> previews s path = Some a \<Longrightarrow> \<not> loading (heap s a) \<Longrightarrow>
   get_preview e s path width height = lookup_or_submit s a path width height"
  by (simp add: get_preview_def)

lemma lookup_found:
  "find_cached (cache (heap s a)) width height = Some v \<Longrightarrow>
   lookup_or_submit s a path width height = (v, s)"
  by (simp add: lookup_or_submit_def)

text \<open>
  C1, as stated, fails: after one job has cached a text under the exact key (80, 24)
  and another a text under (-1, -1), the request for (80, 24) returns the text of the
  wildcard key, not the exact one.
\<close>

theorem C1_counterexample:
  "cache (heap (run_previews
       [(env_on, GetPreview ''/f'' 80 24), (env_on, JobDone 0 0 ''exact''),
        (env_on, GetPreview ''/f'' 40 10), (env_on, JobDone 0 5 ''wild'')]) 0) (80, 24)
     = Some (PyStr ''exact'')
   \<and> fst (get_preview env_on (run_previews
       [(env_on, GetPreview ''/f'' 80 24), (env_on, JobDone 0 0 ''exact''),
        (env_on, GetPreview ''/f'' 40 10), (env_on, JobDone 0 5 ''wild'')]) ''/f'' 80 24)
     = PyStr ''wild''"
  by (simp add: run_previews_def fm_init_def env_on_def get_preview_def script_enabled_def
      lookup_or_submit_def find_cached_def new_preview_data_def on_after_def cache_result_def
      store_def Let_def)

text \<open>
  C1, amended: for an entry that exists and is not loading, \<^verbatim>\<open>get_preview\<close> returns
  the first value found in the order (-1, -1), then (width, -1), then (-1, height),
  then (width, height), and changes nothing: the most general wildcard entry wins over
  the more specific ones, and the exact entry is used only when no wildcard entry
  exists.
\<close>

theorem C1_lookup_order:
  assumes "script_enabled e" and "previews s path = Some a" and "\<not> loading (heap s a)"
  shows "(cache (heap s a) (-1, -1) = Some v \<longrightarrow> get_preview e s path width height = (v, s))
   \<and> (cache (heap s a) (-1, -1) = None \<and> cache (heap s a) (width, -1) = Some v
        \<longrightarrow> get_preview e s path width height = (v, s))
   \<and> (cache (heap s a) (-1, -1) = None \<and> cache (heap s a) (width, -1) = None
        \<and> cache (heap s a) (-1, height) = Some v
        \<longrightarrow> get_preview e s path width height = (v, s))
   \<and> (cache (heap s a) (-1, -1) = None \<and> cache (heap s a) (width, -1) = None
        \<and> cache (heap s a) (-1, height) = None \<and> cache (heap s a) (width, height) = Some v
        \<longrightarrow> get_preview e s path width height = (v, s))"
proof -
  have g: "get_preview e s path width height = lookup_or_submit s a path width height"
    using assms by (rule get_preview_entry)
  have "find_cached (cache (heap s a)) width height = Some v
        \<Longrightarrow> get_preview e s path width height = (v, s)"
    by (simp add: g lookup_found)
  then show ?thesis by (simp add: find_cached_def)
qed

theorem C1_lookup_order_witness:
  "get_preview env_on (state_with_cache [(80, 24) \<mapsto> PyStr ''exact'', (-1, -1) \<mapsto> PyStr ''any''])
       ''/f'' 80 24
     = (PyStr ''any'', state_with_cache [(80, 24) \<mapsto> PyStr ''exact'', (-1, -1) \<mapsto> PyStr ''any''])
   \<and> get_preview env_on (state_with_cache [(80, 24) \<mapsto> PyStr ''exact'', (80, -1) \<mapsto> PyStr ''any height''])
       ''/f'' 80 24
     = (PyStr ''any height'',
        state_with_cache [(80, 24) \<mapsto> PyStr ''exact'', (80, -1) \<mapsto> PyStr ''any height''])
   \<and> get_preview env_on (state_with_cache [(80, 24) \<mapsto> PyStr ''exact'', (-1, 24) \<mapsto> PyStr ''any width''])
       ''/f'' 80 24
     = (PyStr ''any width'',
        state_with_cache [(80, 24) \<mapsto> PyStr ''exact'', (-1, 24) \<mapsto> PyStr ''any width''])
   \<and> get_preview env_on (state_with_cache [(80, 24) \<mapsto> PyStr ''exact'']) ''/f'' 80 24
     = (PyStr ''exact'', state_with_cache [(80, 24) \<mapsto> PyStr ''exact''])"
proof -
  have en: "script_enabled env_on" by (simp add: script_enabled_def env_on_def)
  have pv: "previews (state_with_cache c) ''/f'' = Some 0" for c
    by (simp add: state_with_cache_def)
  have nl: "\<not> loading (heap (state_with_cache c) 0)" for c
    by (simp add: state_with_cache_def new_preview_data_def)
  have ch: "cache (heap (state_with_cache c) 0) = c" for c
    by (simp add: state_with_cache_def)
  have a: "get_preview env_on (state_with_cache [(80, 24) \<mapsto> PyStr ''exact'', (-1, -1) \<mapsto> PyStr ''any''])
       ''/f'' 80 24
     = (PyStr ''any'', state_with_cache [(80, 24) \<mapsto> PyStr ''exact'', (-1, -1) \<mapsto> PyStr ''any''])"
    using C1_lookup_order [OF en pv nl, of _ "PyStr ''any''" 80 24] by (simp add: ch)
  have b: "get_preview env_on (state_with_cache [(80, 24) \<mapsto> PyStr ''exact'', (80, -1) \<mapsto> PyStr ''any height''])
       ''/f'' 80 24
     = (PyStr ''any height'',
        state_with_cache [(80, 24) \<mapsto> PyStr ''exact'', (80, -1) \<mapsto> PyStr ''any height''])"
    using C1_lookup_order [OF en pv nl, of _ "PyStr ''any height''" 80 24] by (simp add: ch)
  have c: "get_preview env_on (state_with_cache [(80, 24) \<mapsto> PyStr ''exact'', (-1, 24) \<mapsto> PyStr ''any width''])
       ''/f'' 80 24
     = (PyStr ''any width'',
        state_with_cache [(80, 24) \<mapsto> PyStr ''exact'', (-1, 24) \<mapsto> PyStr ''any width''])"
    using C1_lookup_order [OF en pv nl, of _ "PyStr ''any width''" 80 24] by (simp add: ch)
  have d: "get_preview env_on (state_with_cache [(80, 24) \<mapsto> PyStr ''exact'']) ''/f'' 80 24
     = (PyStr ''exact'', state_with_cache [(80, 24) \<mapsto> PyStr ''exact''])"
    using C1_lookup_order [OF en pv nl, of _ "PyStr ''exact''" 80 24] by (simp add: ch)
  from a b c d show ?thesis by blast
qed

subsection \<open>Claim C4\<close>

lemma cache_result_other:
  "exit \<notin> {0, 1, 2, 3, 4, 5} \<Longrightarrow>
   cache_result e s j exit content
     = (None, store s (job_data j) (\<lambda>d. d\<lparr>cache := (cache d)((-1, -1) \<mapsto> PyNone)\<rparr>))"
  by (simp add: cache_result_def Let_def)

lemma on_after_other:
  assumes "exit \<notin> {0, 1, 2, 3, 4, 5}"
  shows "previews (snd (on_after e s j exit content)) = previews s
    \<and> loader_queue (snd (on_after e s j exit content)) = loader_queue s
    \<and> cache (heap (snd (on_after e s j exit content)) (job_data j)) (-1, -1) = Some PyNone
    \<and> foundpreview (heap (snd (on_after e s j exit content)) (job_data j)) = Some True"
  by (cases "env_cf e") (simp_all add: on_after_def cache_result_other [OF assms] store_def)

lemma find_cached_wildcard:
  "c (-1, -1) = Some v \<Longrightarrow> find_cached c width height = Some v"
  by (simp add: find_cached_def)

lemma get_preview_cached_wildcard:
  assumes "script_enabled e" and "previews s path = Some a"
    and "cache (heap s a) (-1, -1) = Some PyNone"
  shows "get_preview e s path width height = (PyNone, s)"
proof (cases "loading (heap s a)")
  case True
  with assms show ?thesis by (simp add: get_preview_def)
next
  case False
  with assms show ?thesis
    by (simp add: get_preview_entry lookup_found find_cached_wildcard)
qed

text \<open>
  C4, as stated, fails: after a job for \<^verbatim>\<open>/f\<close> ends with exit code 7, the entry
  holds a cached \<^verbatim>\<open>None\<close> under (-1, -1), and the next \<^verbatim>\<open>get_preview\<close> of the
  path submits no job: the loader's queue stays empty.
\<close>

theorem C4_counterexample:
  "cache (heap (run_previews [(env_on, GetPreview ''/f'' 80 24), (env_on, JobDone 0 7 ''x'')]) 0) (-1, -1)
     = Some PyNone
   \<and> loader_queue (run_previews [(env_on, GetPreview ''/f'' 80 24), (env_on, JobDone 0 7 ''x'')]) = []
   \<and> loader_queue (snd (get_preview env_on
        (run_previews [(env_on, GetPreview ''/f'' 80 24), (env_on, JobDone 0 7 ''x'')]) ''/f'' 80 24)) = []"
  by (simp add: run_previews_def fm_init_def env_on_def get_preview_def script_enabled_def
      lookup_or_submit_def find_cached_def new_preview_data_def on_after_def cache_result_def
      store_def Let_def)

text \<open>
  C4, amended: when a preview job for a path ends with an exit code other than 0 to 5,
  the callback caches \<^verbatim>\<open>None\<close> under the key (-1, -1) of the job's entry and sets
  \<^verbatim>\<open>foundpreview\<close> to true. While that entry is the path's entry, every later
  \<^verbatim>\<open>get_preview\<close> of the path, for any width and height, returns \<^verbatim>\<open>None\<close>, changes
  nothing and submits no job: the failure is cached like the answer "no preview" and is
  not tried again until the entry is deleted.
\<close>

theorem C4_failure_is_cached:
  assumes "exit \<notin> {0, 1, 2, 3, 4, 5}"
    and "previews s (job_path j) = Some (job_data j)"
    and "script_enabled e'"
  shows "cache (heap (snd (on_after e s j exit content)) (job_data j)) (-1, -1) = Some PyNone
    \<and> foundpreview (heap (snd (on_after e s j exit content)) (job_data j)) = Some True
    \<and> get_preview e' (snd (on_after e s j exit content)) (job_path j) width height
        = (PyNone, snd (on_after e s j exit content))
    \<and> loader_queue (snd (get_preview e' (snd (on_after e s j exit content)) (job_path j) width height))
        = loader_queue s"
proof -
  let ?s1 = "snd (on_after e s j exit content)"
  note after = on_after_other [OF assms(1), of e s j content]
  have pv: "previews ?s1 (job_path j) = Some (job_data j)"
    using after assms(2) by simp
  have c: "cache (heap ?s1 (job_data j)) (-1, -1) = Some PyNone"
    using after by simp
  have g: "get_preview e' ?s1 (job_path j) width height = (PyNone, ?s1)"
    using assms(3) pv c by (rule get_preview_cached_wildcard)
  from after g show ?thesis by simp
qed

theorem C4_failure_is_cached_witness:
  "cache (heap (snd (on_after env_on (snd (get_preview env_on fm_init ''/f'' 80 24))
       \<lparr>job_path = ''/f'', job_width = 80, job_height = 24, job_data = 0\<rparr> 7 ''x'')) 0) (-1, -1)
     = Some PyNone
   \<and> fst (get_preview env_on (snd (on_after env_on (snd (get_preview env_on fm_init ''/f'' 80 24))
       \<lparr>job_path = ''/f'', job_width = 80, job_height = 24, job_data = 0\<rparr> 7 ''x'')) ''/f'' 40 10)
     = PyNone
   \<and> loader_queue (snd (get_preview env_on (snd (on_after env_on (snd (get_preview env_on fm_init ''/f'' 80 24))
       \<lparr>job_path = ''/f'', job_width = 80, job_height = 24, job_data = 0\<rparr> 7 ''x'')) ''/f'' 40 10))
     = [\<lparr>job_path = ''/f'', job_width = 80, job_height = 24, job_data = 0\<rparr>]"
proof -
  let ?j = "\<lparr>job_path = ''/f'', job_width = 80, job_height = 24, job_data = 0\<rparr>"
  let ?s = "snd (get_preview env_on fm_init ''/f'' 80 24)"
  have ex: "(7::int) \<notin> {0, 1, 2, 3, 4, 5}" by simp
  have en: "script_enabled env_on" by (simp add: script_enabled_def env_on_def)
  have pv: "previews ?s (job_path ?j) = Some (job_data ?j)"
    by (simp add: get_preview_def en fm_init_def lookup_or_submit_def find_cached_def
        new_preview_data_def)
  have q: "loader_queue ?s = [?j]"
    by (simp add: get_preview_def en fm_init_def lookup_or_submit_def find_cached_def
        new_preview_data_def)
  let ?s1 = "snd (on_after env_on ?s ?j 7 ''x'')"
  note t = C4_failure_is_cached [OF ex pv en, of env_on "''x''" 40 10]
  from t have a: "cache (heap ?s1 (job_data ?j)) (-1, -1) = Some PyNone" by blast
  from t have b: "get_preview env_on ?s1 (job_path ?j) 40 10 = (PyNone, ?s1)" by blast
  from t have c: "loader_queue (snd (get_preview env_on ?s1 (job_path ?j) 40 10)) = loader_queue ?s"
    by blast
  have a': "cache (heap ?s1 0) (-1, -1) = Some PyNone" using a by simp
  have b': "fst (get_preview env_on ?s1 ''/f'' 40 10) = PyNone" using b by simp
  have c': "loader_queue (snd (get_preview env_on ?s1 ''/f'' 40 10)) = [?j]"
    using c by (simp only: q job.simps)
  from a' b' c' show ?thesis by blast
qed

subsection \<open>At most one job per path while the path is undisturbed\<close>







paragraph \<open>The allocation invariant holds after every step.\<close>









paragraph \<open>The invariant of a path holds after every step that leaves the path undisturbed.\<close>











subsection \<open>Claim C8\<close>








section \<open>Properties of the tab\<close>

subsection \<open>Claim C3\<close>

lemma get_directory_events: "cd_events (snd (get_directory e fm path)) = cd_events fm"
  by (simp add: get_directory_def split: option.splits)

text \<open>
  C3, as stated, fails: entering the existing directory \<^verbatim>\<open>/a/b\<close> from a fresh tab at
  \<^verbatim>\<open>/\<close> while \<^verbatim>\<open>os.chdir\<close> raises returns \<^verbatim>\<open>True\<close> with the tab as it was: the
  path is still \<^verbatim>\<open>/\<close>, there is no current directory or file, the pathway and the
  history are empty, and no \<^verbatim>\<open>cd\<close> signal was emitted.
\<close>

theorem C3_counterexample:
  "fst (enter_dir (tab_env_example False) tab_fm_init tab_at_root (Some ''/a/b'') True) = Some True
   \<and> snd (snd (enter_dir (tab_env_example False) tab_fm_init tab_at_root (Some ''/a/b'') True))
       = \<lparr>tab_path = ''/'', thisdir = None, thisfile = None, pathway = [],
          tab_history = \<lparr>maxlen = None, history = [], history_forward = []\<rparr>\<rparr>
   \<and> cd_events (fst (snd (enter_dir (tab_env_example False) tab_fm_init tab_at_root (Some ''/a/b'') True)))
       = []"
  by (simp add: enter_dir_def tab_env_example_def tab_fm_init_def tab_at_root_def
      get_directory_def History_init_def Let_def)

text \<open>
  C3, amended: when the resolved path is an existing directory but changing the working
  directory to it fails, \<^verbatim>\<open>enter_dir\<close> returns \<^verbatim>\<open>True\<close> at once. The directory object
  has been obtained from the cache, and nothing else has happened: the tab (path,
  current directory, pathway, current file, history) is unchanged and no \<^verbatim>\<open>cd\<close>
  signal is emitted.
\<close>

theorem C3_chdir_failure_leaves_tab:
  assumes "isdir e (resolve e (tab_path t) p)" and "\<not> chdir_ok e (resolve e (tab_path t) p)"
  shows "enter_dir e fm t (Some p) hist
           = (Some True, snd (get_directory e fm (resolve e (tab_path t) p)), t)
    \<and> cd_events (fst (snd (enter_dir e fm t (Some p) hist))) = cd_events fm"
proof -
  have r: "enter_dir e fm t (Some p) hist
      = (Some True, snd (get_directory e fm (resolve e (tab_path t) p)), t)"
    using assms by (simp add: enter_dir_def Let_def split: prod.splits)
  then show ?thesis by (simp add: get_directory_events)
qed

theorem C3_chdir_failure_leaves_tab_witness:
  "enter_dir (tab_env_example False) tab_fm_init tab_at_root (Some ''/a'') True
     = (Some True, snd (get_directory (tab_env_example False) tab_fm_init ''/a''), tab_at_root)
   \<and> cd_events (fst (snd (enter_dir (tab_env_example False) tab_fm_init tab_at_root (Some ''/a'') True)))
     = []"
proof -
  have d: "isdir (tab_env_example False)
      (resolve (tab_env_example False) (tab_path tab_at_root) ''/a'')"
    by (simp add: tab_env_example_def)
  have c: "\<not> chdir_ok (tab_env_example False)
      (resolve (tab_env_example False) (tab_path tab_at_root) ''/a'')"
    by (simp add: tab_env_example_def)
  have r: "resolve (tab_env_example False) (tab_path tab_at_root) ''/a'' = ''/a''"
    by (simp add: tab_env_example_def)
  have ev: "cd_events tab_fm_init = []" by (simp add: tab_fm_init_def)
  show ?thesis
    using C3_chdir_failure_leaves_tab [OF d c, of tab_fm_init True]
    unfolding r ev by assumption
qed

text \<open>
  When the change of the working directory succeeds, the tab is updated: its path and
  current directory are the resolved path and one \<^verbatim>\<open>cd\<close> signal is emitted, from the
  old current directory to the new one.
\<close>

lemma enter_dir_success:
  assumes "isdir e (resolve e (tab_path t) p)" and "chdir_ok e (resolve e (tab_path t) p)"
  shows "fst (enter_dir e fm t (Some p) hist) = Some True
    \<and> tab_path (snd (snd (enter_dir e fm t (Some p) hist))) = resolve e (tab_path t) p
    \<and> thisdir (snd (snd (enter_dir e fm t (Some p) hist))) = Some (resolve e (tab_path t) p)
    \<and> cd_events (fst (snd (enter_dir e fm t (Some p) hist)))
        = cd_events fm @ [(thisdir t, Some (resolve e (tab_path t) p))]"
proof -
  let ?path = "resolve e (tab_path t) p"
  have md: "cd_events (modify_directory f k g) = cd_events f" for f k g
    by (simp add: modify_directory_def)
  have bp: "cd_events (snd (build_pathway e f cur ds acc)) = cd_events f" for f cur ds acc
  proof (induction ds arbitrary: f cur acc)
    case Nil
    show ?case by simp
  next
    case (Cons d ds)
    obtain r f' where g: "get_directory e f (path_join cur d) = (r, f')"
      by (cases "get_directory e f (path_join cur d)") auto
    have "cd_events f' = cd_events f"
      using get_directory_events [of e f "path_join cur d"] g by simp
    with Cons [of f' "path_join cur d" "acc @ [r]"] g show ?case by simp
  qed
  have ac: "cd_events (assign_cursors e f l ps) = cd_events f" for f l ps
    by (induction e f l ps rule: assign_cursors.induct) (simp_all add: md)
  obtain nd fm1 where g1: "get_directory e fm ?path = (nd, fm1)"
    by (cases "get_directory e fm ?path") auto
  have nd: "nd = ?path"
    using g1 by (simp add: get_directory_def split: option.splits)
  have e1: "cd_events fm1 = cd_events fm"
    using get_directory_events [of e fm ?path] g1 by simp
  let ?fm2 = "modify_directory fm1 ?path (load_content_if_outdated e)"
  let ?pathway = "if ?path = ''/''
                  then (case get_directory e ?fm2 ''/'' of (r, f) \<Rightarrow> ([r], f))
                  else build_pathway e ?fm2 ''/'' (split_slash ?path []) []"
  obtain pw fm3 where pwd: "?pathway = (pw, fm3)"
    by (cases ?pathway) auto
  have e3: "cd_events fm3 = cd_events fm"
  proof (cases "?path = ''/''")
    case True
    obtain r f where g: "get_directory e ?fm2 ''/'' = (r, f)"
      by (cases "get_directory e ?fm2 ''/''") auto
    have "cd_events f = cd_events ?fm2"
      using get_directory_events [of e ?fm2 "''/''"] g by simp
    moreover have "fm3 = f" using pwd True g by simp
    ultimately show ?thesis by (simp add: md e1)
  next
    case False
    then have "fm3 = snd (build_pathway e ?fm2 ''/'' (split_slash ?path []) [])"
      using pwd by simp
    then show ?thesis by (simp add: bp md e1)
  qed
  show ?thesis
    using assms
    by (simp add: enter_dir_def Let_def g1 nd pwd e3 md ac
        assign_cursor_positions_for_subdirs_def del: split_slash.simps build_pathway.simps)
qed

end
